theory Spec2Isabelle
  imports Complex_Main "HOL-Library.Product_Lexorder" "HOL-Library.Multiset"
    "HOL-Library.Log_Nat"
begin

section \<open>Time\<close>

text \<open>
  A \<open>datetime\<close> is modelled as the instant it denotes: the number of microseconds
  since \<open>datetime.min\<close> (0001-01-01T00:00:00 UTC). \<open>_ensure_utc\<close> attaches the UTC zone
  to a naive value and leaves the instant alone, so it is the identity on instants.
  A \<open>timedelta\<close> is a number of microseconds.

  Instants are unbounded integers: the \<open>OverflowError\<close> that \<open>datetime\<close> arithmetic raises
  outside the years 1 to 9999 is not modelled, the clock being taken to read times far
  from either end; \<open>in_datetime_range\<close> says when a duration that comes from outside can
  be added to an instant without it.
\<close>

type_synonym datetime = int

definition datetime_min :: datetime where
  "datetime_min = 0"

definition datetime_max :: datetime where
  "datetime_max = 315537897599999999"

definition timedelta_seconds :: "int \<Rightarrow> int" where
  "timedelta_seconds n = n * 1000000"

definition in_datetime_range :: "datetime \<Rightarrow> int \<Rightarrow> bool" where
  "in_datetime_range now n =
     (- 86399999913600 \<le> n \<and> n \<le> 86399999999999
      \<and> datetime_min \<le> now + timedelta_seconds n
      \<and> now + timedelta_seconds n \<le> datetime_max)"

definition total_seconds :: "int \<Rightarrow> rat" where
  "total_seconds d = of_int d / 1000000"

definition ensure_utc :: "datetime option \<Rightarrow> datetime option" where
  "ensure_utc v = (case v of None \<Rightarrow> None | Some t \<Rightarrow> Some t)"

section \<open>Floats\<close>

text \<open>
  A Python \<open>float\<close> is an IEEE 754 double. A finite double is a rational number, and the
  result of an arithmetic operation on doubles is the exact result rounded to the
  nearest double, ties going to the even significand. \<open>round_double\<close> is that rounding:
  \<open>floor_log2 \<bar>x\<bar>\<close> is the binary exponent of \<open>x\<close>, and the doubles around \<open>x\<close> are the
  multiples of two to that exponent less 52 (a significand of 53 bits). The exponent
  range is not bounded here, so the rounding is the double's wherever the result is
  neither above the largest double nor below the smallest normal one, as it is for
  scores of 64-bit limits and counts and for readings of the monotonic clock.
\<close>

definition round_half_even :: "rat \<Rightarrow> int" where
  "round_half_even x =
     (let f = \<lfloor>x\<rfloor>; d = x - of_int f
      in if d < 1 / 2 then f
         else if 1 / 2 < d then f + 1
         else if even f then f else f + 1)"

definition floor_log2 :: "rat \<Rightarrow> int" where
  "floor_log2 x = (if 1 \<le> x then bitlen \<lfloor>x\<rfloor> - 1 else - bitlen (\<lceil>1 / x\<rceil> - 1))"

definition round_double :: "rat \<Rightarrow> rat" where
  "round_double x =
     (if x = 0 then 0
      else let u = 2 powi (floor_log2 \<bar>x\<bar> - 52)
           in of_int (round_half_even (x / u)) * u)"

text \<open>
  The operations the code uses: a literal such as \<open>0.4\<close>, \<open>float(n)\<close> of an integer (what
  an integer becomes next to a float), true division of integers, and the product, sum
  and difference of floats.
\<close>

definition float_literal :: "rat \<Rightarrow> rat" where
  "float_literal x = round_double x"

definition float_of_int :: "int \<Rightarrow> rat" where
  "float_of_int n = round_double (of_int n)"

definition true_div :: "int \<Rightarrow> int \<Rightarrow> rat" where
  "true_div a b = round_double (of_int a / of_int b)"

definition float_mul :: "rat \<Rightarrow> rat \<Rightarrow> rat" where
  "float_mul x y = round_double (x * y)"

definition float_add :: "rat \<Rightarrow> rat \<Rightarrow> rat" where
  "float_add x y = round_double (x + y)"

definition float_sub :: "rat \<Rightarrow> rat \<Rightarrow> rat" where
  "float_sub x y = round_double (x - y)"

section \<open>JSON values\<close>

text \<open>
  What \<open>json.loads\<close> returns, and what a document field holds when it is not of one fixed
  type: \<open>None\<close>, a boolean, a number, a string, a list or a dict with string keys.
  \<open>JNonFinite\<close> stands for \<open>NaN\<close> and the infinities, which \<open>json.loads\<close> accepts. A string
  is the list of its characters, a dict the list of its items, each key once.
\<close>

datatype json =
    JNull
  | JBool bool
  | JNum rat
  | JNonFinite
  | JStr string
  | JList "json list"
  | JDict "(string \<times> json) list"

text \<open>The truth value of a value, as \<open>if v:\<close>, \<open>not v\<close>, \<open>v or w\<close> and \<open>v and w\<close> take it.\<close>

fun py_truthy :: "json \<Rightarrow> bool" where
  "py_truthy JNull = False"
| "py_truthy (JBool b) = b"
| "py_truthy (JNum n) = (n \<noteq> 0)"
| "py_truthy JNonFinite = True"
| "py_truthy (JStr s) = (s \<noteq> [])"
| "py_truthy (JList xs) = (xs \<noteq> [])"
| "py_truthy (JDict kvs) = (kvs \<noteq> [])"

text \<open>
  \<open>v[key]\<close> with a string key and \<open>v[0]\<close>: the value, or \<open>None\<close> when the subscript raises
  (\<open>KeyError\<close> on a dict without the key, \<open>IndexError\<close> on an empty list or string,
  \<open>TypeError\<close> on everything else).
\<close>

fun subscript_key :: "json \<Rightarrow> string \<Rightarrow> json option" where
  "subscript_key (JDict kvs) k = map_of kvs k"
| "subscript_key v k = None"

fun subscript_0 :: "json \<Rightarrow> json option" where
  "subscript_0 (JList (x # xs)) = Some x"
| "subscript_0 (JStr (c # cs)) = Some (JStr [c])"
| "subscript_0 v = None"

section \<open>Credential documents\<close>

text \<open>
  A credential document is a \<open>Dict[str, Any]\<close>. The fields the code reads with
  \<open>doc.get(key)\<close> are optional, \<open>None\<close> standing for a missing key or a stored null, which
  the code does not tell apart; for \<open>enabled\<close>, read with the default \<open>True\<close>, \<open>None\<close> is the
  missing key. Values have the types the admin commands and the dispatcher store.
  \<open>encrypted_api_key\<close> is the stored \<open>{"nonce", "ciphertext"}\<close> payload, kept as an
  association list.
\<close>

record key_doc =
  guild_id :: int
  name :: string
  encrypted_api_key :: "(string \<times> string) list"
  enabled :: "bool option"
  cooldown_until :: "datetime option"
  rpm_limit :: "int option"
  rpd_limit :: "int option"
  minute_window_started_at :: "datetime option"
  minute_window_count :: "int option"
  day_started_at :: "datetime option"
  day_count :: "int option"
  last_used_at :: "datetime option"
  last_error :: "json option"
  last_error_code :: "int option"
  last_error_at :: "datetime option"
  updated_at :: "datetime option"

text \<open>\<open>int(v or 0)\<close> on an optional integer.\<close>

definition int_or_0 :: "int option \<Rightarrow> int" where
  "int_or_0 v = (case v of None \<Rightarrow> 0 | Some n \<Rightarrow> n)"

text \<open>\<open>doc.get("enabled", True)\<close>, read for its truth value.\<close>

definition get_enabled :: "key_doc \<Rightarrow> bool" where
  "get_enabled doc = (case enabled doc of None \<Rightarrow> True | Some b \<Rightarrow> b)"

section \<open>Window tracker\<close>

definition window_state ::
  "datetime option \<Rightarrow> int option \<Rightarrow> int \<Rightarrow> datetime \<Rightarrow> datetime \<times> int" where
  "window_state start cnt window_seconds now =
     (let start = ensure_utc start;
          cnt = int_or_0 cnt
      in case start of
           None \<Rightarrow> (now, 0)
         | Some s \<Rightarrow>
             if of_int window_seconds \<le> total_seconds (now - s) then (now, 0)
             else (s, cnt))"

section \<open>Eligibility filter\<close>

record candidate =
  cand_doc :: key_doc
  cand_score :: rat
  cand_minute_start :: datetime
  cand_minute_count :: int
  cand_day_start :: datetime
  cand_day_count :: int
  cand_last_used_at :: "datetime option"

definition build_key_candidate :: "key_doc \<Rightarrow> datetime \<Rightarrow> candidate option" where
  "build_key_candidate doc now =
     (if \<not> get_enabled doc then None
      else
        let cooldown = ensure_utc (cooldown_until doc) in
        if (case cooldown of None \<Rightarrow> False | Some c \<Rightarrow> now < c) then None
        else
          let rpm = int_or_0 (rpm_limit doc);
              rpd = int_or_0 (rpd_limit doc)
          in
          if rpm \<le> 0 \<or> rpd \<le> 0 then None
          else
            let (minute_start, minute_count) =
                  window_state (minute_window_started_at doc) (minute_window_count doc) 60 now;
                (day_start, day_cnt) =
                  window_state (day_started_at doc) (day_count doc) 86400 now
            in
            if rpm \<le> minute_count \<or> rpd \<le> day_cnt then None
            else
              let remaining_rpm = true_div (rpm - minute_count) rpm;
                  remaining_rpd = true_div (rpd - day_cnt) rpd;
                  score = float_add (float_mul remaining_rpm (float_literal (4 / 10)))
                                    (float_mul remaining_rpd (float_literal (6 / 10)))
              in Some \<lparr> cand_doc = doc,
                        cand_score = score,
                        cand_minute_start = minute_start,
                        cand_minute_count = minute_count,
                        cand_day_start = day_start,
                        cand_day_count = day_cnt,
                        cand_last_used_at = ensure_utc (last_used_at doc) \<rparr>)"

section \<open>Credential store and clock\<close>

text \<open>
  The dispatcher writes a credential through \<open>db.update_ai_api_key(guild_id, name, update)\<close>,
  where \<open>update\<close> is a dict of named fields. An update is modelled as the list of its
  field assignments, in the order the dict is built.
\<close>

datatype field_set =
    Set_minute_window_started_at datetime
  | Set_minute_window_count int
  | Set_day_started_at datetime
  | Set_day_count int
  | Set_last_used_at datetime
  | Set_last_error "json option"
  | Set_last_error_code "int option"
  | Set_last_error_at "datetime option"
  | Set_updated_at datetime
  | Set_cooldown_until datetime
  | Set_enabled bool

fun apply_field :: "field_set \<Rightarrow> key_doc \<Rightarrow> key_doc" where
  "apply_field (Set_minute_window_started_at t) d = d\<lparr>minute_window_started_at := Some t\<rparr>"
| "apply_field (Set_minute_window_count n) d = d\<lparr>minute_window_count := Some n\<rparr>"
| "apply_field (Set_day_started_at t) d = d\<lparr>day_started_at := Some t\<rparr>"
| "apply_field (Set_day_count n) d = d\<lparr>day_count := Some n\<rparr>"
| "apply_field (Set_last_used_at t) d = d\<lparr>last_used_at := Some t\<rparr>"
| "apply_field (Set_last_error v) d = d\<lparr>last_error := v\<rparr>"
| "apply_field (Set_last_error_code v) d = d\<lparr>last_error_code := v\<rparr>"
| "apply_field (Set_last_error_at v) d = d\<lparr>last_error_at := v\<rparr>"
| "apply_field (Set_updated_at t) d = d\<lparr>updated_at := Some t\<rparr>"
| "apply_field (Set_cooldown_until t) d = d\<lparr>cooldown_until := Some t\<rparr>"
| "apply_field (Set_enabled b) d = d\<lparr>enabled := Some b\<rparr>"

text \<open>
  Modelled from the spec: the effect of \<open>db.update_ai_api_key\<close>'s update on one document.
  \<open>database.db_manager\<close> is not among the sources; the spec gives the store as "update
  named fields on one": the named fields are set, every other field is left alone.
\<close>

definition apply_update :: "field_set list \<Rightarrow> key_doc \<Rightarrow> key_doc" where
  "apply_update update d = fold apply_field update d"

text \<open>
  Modelled from the spec: \<open>db.list_ai_api_keys(guild_id)\<close> of the missing
  \<open>database.db_manager\<close>, "list credentials for a tenant". The store is the list of its
  documents.
\<close>

definition list_ai_api_keys :: "int \<Rightarrow> key_doc list \<Rightarrow> key_doc list" where
  "list_ai_api_keys gid docs = filter (\<lambda>d. guild_id d = gid) docs"

text \<open>
  Modelled from the spec: \<open>db.get_ai_api_key(guild_id, name)\<close> of the missing
  \<open>database.db_manager\<close>, "fetch one by name"; names are unique within a tenant.
\<close>

definition get_ai_api_key :: "int \<Rightarrow> string \<Rightarrow> key_doc list \<Rightarrow> key_doc option" where
  "get_ai_api_key gid nm docs = find (\<lambda>d. guild_id d = gid \<and> name d = nm) docs"

text \<open>
  Modelled from the spec: \<open>db.update_ai_api_key(guild_id, name, update)\<close> of the missing
  \<open>database.db_manager\<close>, "update named fields on one": the tenant's credential of that
  name gets the update, every other document is left alone, and nothing happens when
  there is no such credential.
\<close>

fun update_ai_api_key :: "int \<Rightarrow> string \<Rightarrow> field_set list \<Rightarrow> key_doc list \<Rightarrow> key_doc list" where
  "update_ai_api_key gid nm update [] = []"
| "update_ai_api_key gid nm update (d # docs) =
     (if guild_id d = gid \<and> name d = nm then apply_update update d # docs
      else d # update_ai_api_key gid nm update docs)"

section \<open>Exceptions and the outside world\<close>

text \<open>
  Exceptions are values: a class and the message \<open>str(exc)\<close> gives. The classes are the
  ones the decryption path and the header parse can raise; \<open>binascii.Error\<close> (a malformed
  base64 string), \<open>UnicodeDecodeError\<close> and PyNaCl's \<open>exceptions.ValueError\<close> (a nonce of
  the wrong length) are subclasses of the builtin \<open>ValueError\<close>, PyNaCl's \<open>CryptoError\<close>
  (a ciphertext that fails verification) is not.
\<close>

datatype exc_class =
    ValueError
  | BinasciiError
  | UnicodeDecodeError
  | NaclValueError
  | CryptoError
  | KeyError
  | TypeError
  | OverflowError
  | OtherError

datatype pyexc = Exc exc_class string

fun isinstance_ValueError :: "exc_class \<Rightarrow> bool" where
  "isinstance_ValueError ValueError = True"
| "isinstance_ValueError BinasciiError = True"
| "isinstance_ValueError UnicodeDecodeError = True"
| "isinstance_ValueError NaclValueError = True"
| "isinstance_ValueError CryptoError = False"
| "isinstance_ValueError KeyError = False"
| "isinstance_ValueError TypeError = False"
| "isinstance_ValueError OverflowError = False"
| "isinstance_ValueError OtherError = False"

text \<open>
  The upstream response \<open>(status, data, text, headers)\<close> of \<open>request_json\<close>: \<open>data\<close> is the
  parsed body, \<open>JNull\<close> when the text is empty or does not parse; of the headers the
  dispatcher reads \<open>Retry-After\<close>.
\<close>

record response =
  resp_status :: int
  resp_data :: json
  resp_text :: string
  resp_retry_after :: "string option"

text \<open>
  What the code takes from outside: the clock (\<open>wall_clock e n\<close> is what the \<open>n\<close>-th call
  of \<open>datetime.now\<close> returns), the environment variable, the library functions of the
  decryption path (\<open>hashlib.sha256\<close>, \<open>base64.b64decode\<close>, \<open>SecretBox.decrypt\<close>,
  \<open>bytes.decode\<close>), the header parse \<open>int(float(s))\<close>, and the upstream call
  (\<open>request_json e i key\<close> is the outcome of the call the \<open>i\<close>-th candidate makes).
\<close>

record env =
  wall_clock :: "nat \<Rightarrow> datetime"
  getenv_enc_secret :: "string option"
  sha256_digest :: "string \<Rightarrow> string"
  b64decode :: "string \<Rightarrow> pyexc + string"
  secretbox_decrypt :: "string \<Rightarrow> string \<Rightarrow> string \<Rightarrow> pyexc + string"
  utf8_decode :: "string \<Rightarrow> pyexc + string"
  int_float :: "string \<Rightarrow> pyexc + int"
  request_json :: "nat \<Rightarrow> string \<Rightarrow> pyexc + response"

text \<open>
  The state a dispatch changes: the credential store, the number of clock readings made
  so far, and the operator notifications it asks for (tenant, credential name, status);
  whether the tenant has a log channel to carry them is outside the model.
\<close>

record world =
  db_keys :: "key_doc list"
  clock_reads :: nat
  notices :: "(int \<times> string \<times> int) list"

text \<open>\<open>_now\<close>: one more reading of the clock.\<close>

definition now_utc :: "env \<Rightarrow> world \<Rightarrow> datetime \<times> world" where
  "now_utc e w = (wall_clock e (clock_reads w), w\<lparr>clock_reads := Suc (clock_reads w)\<rparr>)"

definition MAX_KEY_ATTEMPTS :: nat where
  "MAX_KEY_ATTEMPTS = 3"

definition DEFAULT_RATE_LIMIT_COOLDOWN_SECONDS :: int where
  "DEFAULT_RATE_LIMIT_COOLDOWN_SECONDS = 30"

definition DEFAULT_SERVER_ERROR_COOLDOWN_SECONDS :: int where
  "DEFAULT_SERVER_ERROR_COOLDOWN_SECONDS = 20"

definition MAX_STATUS_TEXT :: nat where
  "MAX_STATUS_TEXT = 600"

section \<open>Key pool scheduler\<close>

text \<open>
  The sort key \<open>(-score, last_used_at or datetime.min)\<close>; \<open>list.sort\<close> is stable, as
  \<open>sort_key\<close> is, and tuples compare lexicographically.
\<close>

definition candidate_sort_key :: "candidate \<Rightarrow> rat \<times> datetime" where
  "candidate_sort_key item =
     (- cand_score item,
      case cand_last_used_at item of None \<Rightarrow> datetime_min | Some t \<Rightarrow> t)"

definition select_key_candidates :: "env \<Rightarrow> int \<Rightarrow> world \<Rightarrow> candidate list \<times> world" where
  "select_key_candidates e gid w =
     (let keys = list_ai_api_keys gid (db_keys w);
          (now, w) = now_utc e w;
          candidates = List.map_filter (\<lambda>doc. build_key_candidate doc now) keys
      in (sort_key candidate_sort_key candidates, w))"

text \<open>
  \<open>_update_key_usage\<close> and \<open>_set_key_error\<close>, each as the update dict it builds and the
  call that reads the clock and writes the dict to the store.
\<close>

definition key_usage_fields :: "datetime \<Rightarrow> candidate \<Rightarrow> field_set list" where
  "key_usage_fields now candidate =
     [Set_minute_window_started_at (cand_minute_start candidate),
      Set_minute_window_count (cand_minute_count candidate + 1),
      Set_day_started_at (cand_day_start candidate),
      Set_day_count (cand_day_count candidate + 1),
      Set_last_used_at now,
      Set_last_error None,
      Set_last_error_code None,
      Set_last_error_at None,
      Set_updated_at now]"

definition update_key_usage :: "env \<Rightarrow> key_doc \<Rightarrow> candidate \<Rightarrow> world \<Rightarrow> world" where
  "update_key_usage e doc candidate w =
     (let (now, w) = now_utc e w
      in w\<lparr>db_keys :=
             update_ai_api_key (guild_id doc) (name doc) (key_usage_fields now candidate)
               (db_keys w)\<rparr>)"

text \<open>
  \<open>message[:MAX_STATUS_TEXT]\<close>: the slice of a string or of a list; any other value has
  none and raises (\<open>TypeError\<close>; for a dict, \<open>KeyError\<close> from Python 3.12 on, where slices
  are hashable). The exception's text, which names the type of the value, is shortened.
\<close>

fun slice_message :: "json \<Rightarrow> pyexc + json" where
  "slice_message (JStr s) = Inr (JStr (take MAX_STATUS_TEXT s))"
| "slice_message (JList xs) = Inr (JList (take MAX_STATUS_TEXT xs))"
| "slice_message (JDict kvs) = Inl (Exc TypeError ''unhashable type: slice'')"
| "slice_message v = Inl (Exc TypeError ''object is not subscriptable'')"

text \<open>
  The update dict of \<open>_set_key_error\<close>; building it raises when the message cannot be
  sliced. \<open>if cooldown_seconds:\<close> on an \<open>Optional[int]\<close>: neither \<open>None\<close> nor zero.
\<close>

definition key_error_fields ::
  "datetime \<Rightarrow> int \<Rightarrow> json \<Rightarrow> int option \<Rightarrow> bool \<Rightarrow> pyexc + field_set list" where
  "key_error_fields now code message cooldown_seconds disable =
     (case slice_message message of
        Inl exc \<Rightarrow> Inl exc
      | Inr sliced \<Rightarrow>
          Inr ([Set_last_error_code (Some code),
                Set_last_error (Some sliced),
                Set_last_error_at (Some now),
                Set_updated_at now]
               @ (case cooldown_seconds of
                    None \<Rightarrow> []
                  | Some n \<Rightarrow>
                      if n \<noteq> 0 then [Set_cooldown_until (now + timedelta_seconds n)] else [])
               @ (if disable then [Set_enabled False] else [])))"

text \<open>
  \<open>_set_key_error\<close>: the exception it raises, if any, and the state it leaves. The clock is
  read before the dict is built, so it has been read also when nothing is written.
\<close>

definition set_key_error ::
  "env \<Rightarrow> key_doc \<Rightarrow> int \<Rightarrow> json \<Rightarrow> int option \<Rightarrow> bool \<Rightarrow> world
     \<Rightarrow> pyexc option \<times> world" where
  "set_key_error e doc code message cooldown_seconds disable w =
     (let (now, w) = now_utc e w
      in case key_error_fields now code message cooldown_seconds disable of
           Inl exc \<Rightarrow> (Some exc, w)
         | Inr update \<Rightarrow>
             (None,
              w\<lparr>db_keys :=
                  update_ai_api_key (guild_id doc) (name doc) update (db_keys w)\<rparr>))"

section \<open>Secret capability\<close>

definition ENC_SECRET_ENV :: string where
  "ENC_SECRET_ENV = ''LOGIQ_AI_KEY_ENC_SECRET''"

definition derive_key :: "env \<Rightarrow> string \<Rightarrow> string" where
  "derive_key e secret_value = sha256_digest e secret_value"

definition get_secret_key :: "env \<Rightarrow> pyexc + string" where
  "get_secret_key e =
     (case getenv_enc_secret e of
        None \<Rightarrow> Inl (Exc ValueError (ENC_SECRET_ENV @ '' is not set''))
      | Some secret_value \<Rightarrow>
          if secret_value = [] then Inl (Exc ValueError (ENC_SECRET_ENV @ '' is not set''))
          else Inr (derive_key e secret_value))"

definition decrypt_api_key :: "env \<Rightarrow> (string \<times> string) list \<Rightarrow> pyexc + string" where
  "decrypt_api_key e payload =
     (case get_secret_key e of
        Inl exc \<Rightarrow> Inl exc
      | Inr box_key \<Rightarrow>
          (case map_of payload ''nonce'' of
             None \<Rightarrow> Inl (Exc KeyError ''nonce'')
           | Some nonce64 \<Rightarrow>
               (case b64decode e nonce64 of
                  Inl exc \<Rightarrow> Inl exc
                | Inr nonce \<Rightarrow>
                    (case map_of payload ''ciphertext'' of
                       None \<Rightarrow> Inl (Exc KeyError ''ciphertext'')
                     | Some ciphertext64 \<Rightarrow>
                         (case b64decode e ciphertext64 of
                            Inl exc \<Rightarrow> Inl exc
                          | Inr ciphertext \<Rightarrow>
                              (case secretbox_decrypt e box_key ciphertext nonce of
                                 Inl exc \<Rightarrow> Inl exc
                               | Inr plain \<Rightarrow> utf8_decode e plain))))))"

section \<open>Failover loop\<close>

text \<open>
  \<open>data["choices"][0]["message"]["content"]\<close>: the value found, which may be \<open>None\<close>, or
  nothing when one of the subscripts raises \<open>KeyError\<close>, \<open>IndexError\<close> or \<open>TypeError\<close>, the
  exceptions the code catches there.
\<close>

definition completion_content :: "json \<Rightarrow> json option" where
  "completion_content data =
     (case subscript_key data ''choices'' of
        None \<Rightarrow> None
      | Some choices \<Rightarrow>
          (case subscript_0 choices of
             None \<Rightarrow> None
           | Some choice \<Rightarrow>
               (case subscript_key choice ''message'' of
                  None \<Rightarrow> None
                | Some msg \<Rightarrow> subscript_key msg ''content'')))"

text \<open>
  The error message of a response that is not a completion: when the body is a dict, the
  \<open>"message"\<close> of its \<open>"error"\<close> member if that is a dict (\<open>{}\<close> standing in for a falsy one),
  or the member itself if it is a string; when that gives nothing truthy, the first
  \<open>MAX_STATUS_TEXT\<close> characters of the raw text, or a fixed message when the text is empty.
  The message taken from the body is whatever value is there, not always a string.
\<close>

definition response_error_message :: "response \<Rightarrow> json" where
  "response_error_message resp =
     (let error_message =
            (case resp_data resp of
               JDict kvs \<Rightarrow>
                 (let error_info =
                        (case map_of kvs ''error'' of
                           None \<Rightarrow> JDict []
                         | Some v \<Rightarrow> if py_truthy v then v else JDict [])
                  in case error_info of
                       JDict members \<Rightarrow>
                         (case map_of members ''message'' of None \<Rightarrow> JNull | Some m \<Rightarrow> m)
                     | JStr s \<Rightarrow> JStr s
                     | _ \<Rightarrow> JNull)
             | _ \<Rightarrow> JNull)
      in if py_truthy error_message then error_message
         else if resp_text resp \<noteq> [] then JStr (take MAX_STATUS_TEXT (resp_text resp))
         else JStr ''OpenRouter error'')"

text \<open>
  The cooldown of a 429: the default, unless a non-empty \<open>Retry-After\<close> parses; a
  \<open>ValueError\<close> of the parse falls back to the default, any other exception is not caught.
\<close>

definition rate_limit_cooldown :: "env \<Rightarrow> string option \<Rightarrow> pyexc + int" where
  "rate_limit_cooldown e retry_after =
     (case retry_after of
        None \<Rightarrow> Inr DEFAULT_RATE_LIMIT_COOLDOWN_SECONDS
      | Some s \<Rightarrow>
          if s = [] then Inr DEFAULT_RATE_LIMIT_COOLDOWN_SECONDS
          else
            (case int_float e s of
               Inr n \<Rightarrow> Inr n
             | Inl (Exc cls msg) \<Rightarrow>
                 if isinstance_ValueError cls then Inr DEFAULT_RATE_LIMIT_COOLDOWN_SECONDS
                 else Inl (Exc cls msg)))"

text \<open>The "AI Key Disabled" notice of the 401/402 branch, sent under \<open>if guild_id:\<close>.\<close>

definition log_key_disabled :: "int \<Rightarrow> key_doc \<Rightarrow> int \<Rightarrow> world \<Rightarrow> world" where
  "log_key_disabled gid doc status w =
     (if gid \<noteq> 0 then w\<lparr>notices := notices w @ [(gid, name doc, status)]\<rparr> else w)"

text \<open>
  The body of \<open>_call_openrouter\<close>'s \<open>for\<close> loop over the candidates, \<open>last_err\<close> being
  the running \<open>last_error\<close>; \<open>i\<close> counts the candidates already passed. The result is the
  returned pair \<open>(text, error)\<close>, with \<open>JNull\<close> for \<open>None\<close>, or the exception that leaves the
  function. An exception of \<open>_set_key_error\<close> is caught nowhere and leaves it.
\<close>

fun attempt_candidates ::
  "env \<Rightarrow> int \<Rightarrow> nat \<Rightarrow> json \<Rightarrow> candidate list \<Rightarrow> world
     \<Rightarrow> (pyexc + json \<times> json) \<times> world" where
  "attempt_candidates e gid i last_err [] w = (Inr (JNull, last_err), w)"
| "attempt_candidates e gid i last_err (candidate # rest) w =
     (let doc = cand_doc candidate in
      case decrypt_api_key e (encrypted_api_key doc) of
        Inl (Exc cls msg) \<Rightarrow>
          if isinstance_ValueError cls then (Inr (JNull, JStr msg), w)
          else
            (case set_key_error e doc 0 (JStr ''Key decryption failed'') None True w of
               (Some exc, w) \<Rightarrow> (Inl exc, w)
             | (None, w) \<Rightarrow>
                 attempt_candidates e gid (Suc i) (JStr ''AI key decryption failed.'') rest w)
      | Inr api_key \<Rightarrow>
          (let w = update_key_usage e doc candidate w in
           case request_json e i api_key of
             Inl exc \<Rightarrow>
               (case set_key_error e doc 0 (JStr ''OpenRouter request failed'')
                       (Some DEFAULT_SERVER_ERROR_COOLDOWN_SECONDS) False w of
                  (Some exc, w) \<Rightarrow> (Inl exc, w)
                | (None, w) \<Rightarrow>
                    attempt_candidates e gid (Suc i)
                      (JStr ''OpenRouter request failed. Please try again.'') rest w)
           | Inr resp \<Rightarrow>
               (let status = resp_status resp in
                if status = 200 \<and> py_truthy (resp_data resp) then
                  (case completion_content (resp_data resp) of
                     Some content \<Rightarrow> (Inr (content, JNull), w)
                   | None \<Rightarrow>
                       (case set_key_error e doc status
                               (JStr ''OpenRouter response missing completion content.'')
                               (Some DEFAULT_SERVER_ERROR_COOLDOWN_SECONDS) False w of
                          (Some exc, w) \<Rightarrow> (Inl exc, w)
                        | (None, w) \<Rightarrow>
                            attempt_candidates e gid (Suc i)
                              (JStr ''OpenRouter response missing completion content.'') rest w))
                else
                  (let error_message = response_error_message resp in
                   if status = 429 then
                     (case rate_limit_cooldown e (resp_retry_after resp) of
                        Inl exc \<Rightarrow> (Inl exc, w)
                      | Inr cooldown \<Rightarrow>
                          (case set_key_error e doc status error_message (Some cooldown) False w of
                             (Some exc, w) \<Rightarrow> (Inl exc, w)
                           | (None, w) \<Rightarrow>
                               attempt_candidates e gid (Suc i)
                                 (JStr ''AI rate limit reached. Retrying with another key.'')
                                 rest w))
                   else if status = 401 \<or> status = 402 then
                     (case set_key_error e doc status error_message None True w of
                        (Some exc, w) \<Rightarrow> (Inl exc, w)
                      | (None, w) \<Rightarrow>
                          attempt_candidates e gid (Suc i)
                            (JStr ''AI key disabled due to authorization or credit error.'') rest
                            (log_key_disabled gid doc status w))
                   else if 500 \<le> status then
                     (case set_key_error e doc status error_message
                             (Some DEFAULT_SERVER_ERROR_COOLDOWN_SECONDS) False w of
                        (Some exc, w) \<Rightarrow> (Inl exc, w)
                      | (None, w) \<Rightarrow>
                          attempt_candidates e gid (Suc i)
                            (JStr ''OpenRouter server error. Retrying with another key.'') rest w)
                   else
                     (case set_key_error e doc status error_message
                             (Some DEFAULT_RATE_LIMIT_COOLDOWN_SECONDS) False w of
                        (Some exc, w) \<Rightarrow> (Inl exc, w)
                      | (None, w) \<Rightarrow> (Inr (JNull, error_message), w))))))"

definition call_openrouter ::
  "env \<Rightarrow> int \<Rightarrow> world \<Rightarrow> (pyexc + json \<times> json) \<times> world" where
  "call_openrouter e gid w =
     (let (candidates, w) = select_key_candidates e gid w in
      if candidates = [] then
        (Inr (JNull, JStr ''No available AI keys. Ask an admin to add or enable keys.''), w)
      else
        attempt_candidates e gid 0 (JStr ''OpenRouter request failed.'')
          (take MAX_KEY_ATTEMPTS candidates) w)"

section \<open>Concurrency gate and cooldown tracker\<close>

text \<open>
  The process-local state of the cog: the last-request stamps of actors and channels
  (readings of \<open>time.monotonic\<close>), the in-flight count of each tenant, and the tenants for
  which \<open>_get_lock\<close> has created a lock. Acquire and release run under the tenant's lock,
  so each is one atomic step on this state.
\<close>

record cog =
  user_cooldowns :: "int \<times> int \<rightharpoonup> rat"
  channel_cooldowns :: "int \<times> int \<rightharpoonup> rat"
  guild_inflight :: "int \<rightharpoonup> int"
  guild_locks :: "int set"

definition get_lock :: "int \<Rightarrow> cog \<Rightarrow> cog" where
  "get_lock gid self = self\<lparr>guild_locks := insert gid (guild_locks self)\<rparr>"

text \<open>\<open>self.guild_inflight.get(guild_id, 0)\<close>.\<close>

definition inflight_of :: "cog \<Rightarrow> int \<Rightarrow> int" where
  "inflight_of self gid = (case guild_inflight self gid of None \<Rightarrow> 0 | Some n \<Rightarrow> n)"

definition acquire_guild_slot :: "int \<Rightarrow> int \<Rightarrow> cog \<Rightarrow> bool \<times> cog" where
  "acquire_guild_slot gid max_concurrent self =
     (let self = get_lock gid self;
          inflight = inflight_of self gid
      in if max_concurrent \<le> inflight then (False, self)
         else (True, self\<lparr>guild_inflight := (guild_inflight self)(gid \<mapsto> inflight + 1)\<rparr>))"

definition release_guild_slot :: "int \<Rightarrow> cog \<Rightarrow> cog" where
  "release_guild_slot gid self =
     (let self = get_lock gid self;
          inflight = max 0 (inflight_of self gid - 1)
      in if inflight = 0 then self\<lparr>guild_inflight := (guild_inflight self)(gid := None)\<rparr>
         else self\<lparr>guild_inflight := (guild_inflight self)(gid \<mapsto> inflight)\<rparr>)"

text \<open>
  A serialized schedule of gate operations, and the state it leaves: the requests of
  all tenants interleave, each acquire and release being atomic.
\<close>

datatype gate_op = Acquire int int | Release int

fun gate_step :: "gate_op \<Rightarrow> cog \<Rightarrow> cog" where
  "gate_step (Acquire gid max_concurrent) self = snd (acquire_guild_slot gid max_concurrent self)"
| "gate_step (Release gid) self = release_guild_slot gid self"

definition run_gate :: "gate_op list \<Rightarrow> cog \<Rightarrow> cog" where
  "run_gate ops self = fold gate_step ops self"

definition idle_cog :: cog where
  "idle_cog = \<lparr> user_cooldowns = Map.empty, channel_cooldowns = Map.empty,
                guild_inflight = Map.empty, guild_locks = {} \<rparr>"

text \<open>The acquires of tenant \<open>gid\<close> in a schedule all ask for the ceiling \<open>c\<close>.\<close>

fun ceiling_is :: "int \<Rightarrow> int \<Rightarrow> gate_op \<Rightarrow> bool" where
  "ceiling_is gid c (Acquire g m) = (g = gid \<longrightarrow> m = c)"
| "ceiling_is gid c (Release g) = True"

text \<open>
  The cooldown tracker. \<open>monotonic\<close> is the reading of \<open>time.monotonic()\<close> the call makes;
  \<open>_check_cooldowns\<close> makes one for the actor and, if it gets there, one for the channel.
  Readings and stamps are floats, and \<open>cooldown_seconds - (time.monotonic() - last_ts)\<close> is
  computed in floats, the integer converted first.
  Its result is one of two formatted messages, kept here as the message's kind and the
  whole number of seconds \<open>int(remaining)\<close> it prints.
\<close>

definition cooldown_remaining :: "rat \<Rightarrow> rat option \<Rightarrow> int \<Rightarrow> rat" where
  "cooldown_remaining monotonic last_ts cooldown_seconds =
     (case last_ts of
        None \<Rightarrow> 0
      | Some t \<Rightarrow>
          max 0 (float_sub (float_of_int cooldown_seconds) (float_sub monotonic t)))"

datatype cooldown_message = Cooldown_active int | Channel_cooldown_active int

text \<open>\<open>int(x)\<close> of a float: truncation towards zero.\<close>

definition py_int :: "rat \<Rightarrow> int" where
  "py_int x = (if 0 \<le> x then \<lfloor>x\<rfloor> else \<lceil>x\<rceil>)"

definition check_cooldowns ::
  "cog \<Rightarrow> rat \<Rightarrow> rat \<Rightarrow> int \<Rightarrow> int \<Rightarrow> int \<Rightarrow> int \<Rightarrow> int \<Rightarrow> cooldown_message option" where
  "check_cooldowns self mono1 mono2 gid user_id channel_id user_cooldown channel_cooldown =
     (let user_key = (gid, user_id);
          channel_key = (gid, channel_id);
          user_remaining = cooldown_remaining mono1 (user_cooldowns self user_key) user_cooldown
      in if 0 < user_remaining then Some (Cooldown_active (py_int user_remaining))
         else
           let channel_remaining =
                 cooldown_remaining mono2 (channel_cooldowns self channel_key) channel_cooldown
           in if 0 < channel_remaining
              then Some (Channel_cooldown_active (py_int channel_remaining))
              else None)"

definition set_cooldowns :: "rat \<Rightarrow> int \<Rightarrow> int \<Rightarrow> int \<Rightarrow> cog \<Rightarrow> cog" where
  "set_cooldowns now gid user_id channel_id self =
     self\<lparr>user_cooldowns := (user_cooldowns self)((gid, user_id) \<mapsto> now),
          channel_cooldowns := (channel_cooldowns self)((gid, channel_id) \<mapsto> now)\<rparr>"

text \<open>The remaining seconds a cooldown message carries.\<close>

fun message_seconds :: "cooldown_message \<Rightarrow> int" where
  "message_seconds (Cooldown_active n) = n"
| "message_seconds (Channel_cooldown_active n) = n"

section \<open>Session trimming\<close>

record message =
  role :: "string option"
  content :: string
  ts :: "datetime option"

text \<open>
  The loop of \<open>_trim_messages\<close> over \<open>reversed(messages)\<close>: \<open>msgs\<close> is what is left to
  walk, most recent first, \<open>trimmed\<close> what has been appended.
\<close>

fun trim_loop :: "message list \<Rightarrow> int \<Rightarrow> int \<Rightarrow> message list \<Rightarrow> message list" where
  "trim_loop [] max_turns user_turns trimmed = trimmed"
| "trim_loop (msg # msgs) max_turns user_turns trimmed =
     (let user_turns = (if role msg = Some ''user'' then user_turns + 1 else user_turns);
          trimmed = trimmed @ [msg]
      in if max_turns \<le> user_turns then trimmed
         else trim_loop msgs max_turns user_turns trimmed)"

definition trim_messages :: "message list \<Rightarrow> int \<Rightarrow> message list" where
  "trim_messages messages max_turns =
     (if max_turns \<le> 0 then []
      else rev (trim_loop (rev messages) max_turns 0 []))"

text \<open>The number of user-authored turns of a history.\<close>

definition user_turns_of :: "message list \<Rightarrow> nat" where
  "user_turns_of messages = length (filter (\<lambda>m. role m = Some ''user'') messages)"

section \<open>Notions used to state the properties\<close>

text \<open>The minute and day counts after the window advance at \<open>now\<close>.\<close>

definition advanced_minute_count :: "key_doc \<Rightarrow> datetime \<Rightarrow> int" where
  "advanced_minute_count doc now =
     snd (window_state (minute_window_started_at doc) (minute_window_count doc) 60 now)"

definition advanced_day_count :: "key_doc \<Rightarrow> datetime \<Rightarrow> int" where
  "advanced_day_count doc now =
     snd (window_state (day_started_at doc) (day_count doc) 86400 now)"

text \<open>The tie-break component of the sort key: \<open>last_used_at or datetime.min\<close>.\<close>

definition last_used_key :: "candidate \<Rightarrow> datetime" where
  "last_used_key item =
     (case cand_last_used_at item of None \<Rightarrow> datetime_min | Some t \<Rightarrow> t)"

text \<open>
  A cooldown has elapsed when there is no stamp or at least \<open>cooldown_seconds\<close> have passed
  since it; the remaining times of the actor and of the channel are what
  \<open>_cooldown_remaining\<close> gives for their stamps.
\<close>

definition elapsed :: "rat \<Rightarrow> rat option \<Rightarrow> int \<Rightarrow> bool" where
  "elapsed monotonic last_ts cooldown_seconds =
     (case last_ts of None \<Rightarrow> True | Some t \<Rightarrow> of_int cooldown_seconds \<le> monotonic - t)"

definition actor_remaining :: "cog \<Rightarrow> rat \<Rightarrow> int \<Rightarrow> int \<Rightarrow> int \<Rightarrow> rat" where
  "actor_remaining self monotonic gid user_id user_cooldown =
     cooldown_remaining monotonic (user_cooldowns self (gid, user_id)) user_cooldown"

definition channel_remaining :: "cog \<Rightarrow> rat \<Rightarrow> int \<Rightarrow> int \<Rightarrow> int \<Rightarrow> rat" where
  "channel_remaining self monotonic gid channel_id channel_cooldown =
     cooldown_remaining monotonic (channel_cooldowns self (gid, channel_id)) channel_cooldown"

section \<open>Sample inputs\<close>

text \<open>
  Concrete inputs at which the properties are evaluated. The sample environment's clock
  ticks one second per reading; its library functions are stand-ins that fail the way
  the real ones do on the sample payloads: a base64 string with a single character
  beyond a multiple of four has no decoding (\<open>binascii.Error\<close>), and an empty
  ciphertext does not verify (\<open>CryptoError\<close>).
\<close>

definition sample_clock :: "nat \<Rightarrow> datetime" where
  "sample_clock n = 63000000000000000 + int n * 1000000"

definition sample_b64decode :: "string \<Rightarrow> pyexc + string" where
  "sample_b64decode s =
     (if length s mod 4 = 1 then Inl (Exc BinasciiError ''Invalid base64-encoded string'')
      else Inr s)"

definition sample_secretbox_decrypt :: "string \<Rightarrow> string \<Rightarrow> string \<Rightarrow> pyexc + string" where
  "sample_secretbox_decrypt box_key ciphertext nonce =
     (if ciphertext = [] then Inl (Exc CryptoError ''Decryption failed. Ciphertext failed verification'')
      else Inr ciphertext)"

definition sample_int_float :: "string \<Rightarrow> pyexc + int" where
  "sample_int_float s =
     (if s = ''0'' then Inr 0
      else if s = ''7'' then Inr 7
      else if s = ''-5'' then Inr (- 5)
      else if s = ''inf'' then Inl (Exc OverflowError ''cannot convert float infinity to integer'')
      else Inl (Exc ValueError ''could not convert string to float''))"

definition sample_response :: "int \<Rightarrow> response" where
  "sample_response st =
     \<lparr> resp_status = st,
       resp_data = JDict [(''error'', JDict [(''message'', JStr ''upstream refused'')])],
       resp_text = ''{}'',
       resp_retry_after = None \<rparr>"

definition sample_env :: env where
  "sample_env =
     \<lparr> wall_clock = sample_clock,
       getenv_enc_secret = Some ''secret'',
       sha256_digest = (\<lambda>s. s),
       b64decode = sample_b64decode,
       secretbox_decrypt = sample_secretbox_decrypt,
       utf8_decode = Inr,
       int_float = sample_int_float,
       request_json = (\<lambda>i api_key. Inr (sample_response 400)) \<rparr>"

definition sample_doc :: "string \<Rightarrow> key_doc" where
  "sample_doc nm =
     \<lparr> guild_id = 1,
       name = nm,
       encrypted_api_key = [(''nonce'', ''bm9uY2U=''), (''ciphertext'', ''c2VhbGVk'')],
       enabled = Some True,
       cooldown_until = None,
       rpm_limit = Some 20,
       rpd_limit = Some 200,
       minute_window_started_at = None,
       minute_window_count = Some 0,
       day_started_at = None,
       day_count = Some 0,
       last_used_at = None,
       last_error = None,
       last_error_code = None,
       last_error_at = None,
       updated_at = None \<rparr>"

definition sample_world :: "key_doc list \<Rightarrow> world" where
  "sample_world docs = \<lparr> db_keys = docs, clock_reads = 0, notices = [] \<rparr>"

text \<open>
  A pool of two credentials with equal scores, the one that has been used listed first.
\<close>

definition mixed_pool :: "key_doc list" where
  "mixed_pool =
     [(sample_doc ''used'')\<lparr>last_used_at := Some 62000000000000000\<rparr>, sample_doc ''fresh'']"

text \<open>
  A credential whose minute window is open and full, and one with a quarter of each
  window used.
\<close>

definition busy_doc :: key_doc where
  "busy_doc =
     (sample_doc ''busy'')\<lparr>minute_window_started_at := Some 40, minute_window_count := Some 20\<rparr>"

definition part_used_doc :: key_doc where
  "part_used_doc =
     (sample_doc ''part'')\<lparr>minute_window_started_at := Some 40, minute_window_count := Some 5,
                            day_started_at := Some 40, day_count := Some 50\<rparr>"

text \<open>A disabled credential.\<close>

definition disabled_doc :: key_doc where
  "disabled_doc = (sample_doc ''disabled'')\<lparr>enabled := Some False\<rparr>"

text \<open>
  Two credentials with limits of 4 a minute and 4 a day, as they stand at the first
  reading of the sample clock. The one used earlier has three calls in its open minute
  window and one in its day window; the one used later has an expired minute window and
  three calls in its day window. In exact arithmetic both scores are \<open>11/20\<close>.
\<close>

definition earlier_doc :: key_doc where
  "earlier_doc =
     (sample_doc ''earlier'')
       \<lparr>rpm_limit := Some 4, rpd_limit := Some 4,
        minute_window_started_at := Some 62999999941000000, minute_window_count := Some 3,
        day_started_at := Some 62999999945000000, day_count := Some 1,
        last_used_at := Some 62999999945000000\<rparr>"

definition later_doc :: key_doc where
  "later_doc =
     (sample_doc ''later'')
       \<lparr>rpm_limit := Some 4, rpd_limit := Some 4,
        minute_window_started_at := Some 62999999900000000, minute_window_count := Some 1,
        day_started_at := Some 62999992800000000, day_count := Some 3,
        last_used_at := Some 62999999950000000\<rparr>"

definition rounding_pool :: "key_doc list" where
  "rounding_pool = [earlier_doc, later_doc]"

text \<open>A credential whose cooldown has expired and whose last error is still on record.\<close>

definition cooled_doc :: key_doc where
  "cooled_doc = (sample_doc ''cooled'')\<lparr>cooldown_until := Some 5, last_error := Some (JStr ''boom'')\<rparr>"

text \<open>
  Responses of the sample upstream: a rate limit whose \<open>Retry-After\<close> is the given
  header value, and a completion.
\<close>

definition rate_limited :: "string \<Rightarrow> response" where
  "rate_limited retry_after =
     \<lparr> resp_status = 429,
       resp_data = JDict [(''error'', JDict [(''message'', JStr ''slow down'')])],
       resp_text = ''{}'',
       resp_retry_after = Some retry_after \<rparr>"

definition completed :: "string \<Rightarrow> response" where
  "completed answer =
     \<lparr> resp_status = 200,
       resp_data =
         JDict [(''choices'', JList [JDict [(''message'', JDict [(''content'', JStr answer)])]])],
       resp_text = ''{}'',
       resp_retry_after = None \<rparr>"

text \<open>
  A response whose error message is a number, \<open>{"error": {"message": 123}}\<close>, and a
  completion whose content is \<open>null\<close>.
\<close>

definition numeric_message :: "int \<Rightarrow> response" where
  "numeric_message st =
     \<lparr> resp_status = st,
       resp_data = JDict [(''error'', JDict [(''message'', JNum 123)])],
       resp_text = ''{}'',
       resp_retry_after = None \<rparr>"

definition null_completion :: response where
  "null_completion =
     \<lparr> resp_status = 200,
       resp_data =
         JDict [(''choices'', JList [JDict [(''message'', JDict [(''content'', JNull)])]])],
       resp_text = ''{}'',
       resp_retry_after = None \<rparr>"

text \<open>A credential whose stored nonce is not base64: a single character.\<close>

definition malformed_doc :: key_doc where
  "malformed_doc =
     (sample_doc ''malformed'')\<lparr>encrypted_api_key := [(''nonce'', ''a''), (''ciphertext'', ''c2VhbGVk'')]\<rparr>"

text \<open>A credential whose stored ciphertext does not verify.\<close>

definition tampered_doc :: key_doc where
  "tampered_doc =
     (sample_doc ''tampered'')\<lparr>encrypted_api_key := [(''nonce'', ''bm9uY2U=''), (''ciphertext'', '''')]\<rparr>"

text \<open>A pool of two fresh credentials, and the sample upstream answering every call.\<close>

definition two_pool :: "key_doc list" where
  "two_pool = [sample_doc ''first'', sample_doc ''second'']"

definition answering_env :: env where
  "answering_env = sample_env\<lparr>request_json := (\<lambda>i api_key. Inr (completed ''hello''))\<rparr>"

text \<open>A history of five exchanges: ten messages, user and assistant turns alternating.\<close>

definition user_msg :: "string \<Rightarrow> message" where
  "user_msg s = \<lparr> role = Some ''user'', content = s, ts = None \<rparr>"

definition assistant_msg :: "string \<Rightarrow> message" where
  "assistant_msg s = \<lparr> role = Some ''assistant'', content = s, ts = None \<rparr>"

definition five_exchanges :: "message list" where
  "five_exchanges =
     [user_msg ''q1'', assistant_msg ''a1'', user_msg ''q2'', assistant_msg ''a2'',
      user_msg ''q3'', assistant_msg ''a3'', user_msg ''q4'', assistant_msg ''a4'',
      user_msg ''q5'', assistant_msg ''a5'']"

text \<open>
  Tenant 1 with two requests admitted under a ceiling of 2, and a schedule of three
  acquires and a release.
\<close>

definition two_in_flight :: cog where
  "two_in_flight = run_gate [Acquire 1 2, Acquire 1 2] idle_cog"

definition three_acquires :: "gate_op list" where
  "three_acquires = [Acquire 1 2, Acquire 1 2, Acquire 1 2, Release 1]"

text \<open>
  A cog in which actor 7 of tenant 1 made a request at monotonic time 92 and channel 9
  saw one at 95, one in which the actor's last request was at 95, and two whose stamps
  are the floats \<open>0.1\<close> and \<open>1.489399728\<close>.
\<close>

definition recent_cog :: cog where
  "recent_cog = set_cooldowns 95 1 8 9 (set_cooldowns 92 1 7 3 idle_cog)"

definition five_seconds_ago_cog :: cog where
  "five_seconds_ago_cog = set_cooldowns 95 1 7 9 idle_cog"

definition tenth_cog :: cog where
  "tenth_cog = set_cooldowns (float_literal (1 / 10)) 1 7 9 idle_cog"

definition fraction_cog :: cog where
  "fraction_cog = set_cooldowns (float_literal (1489399728 / 1000000000)) 1 7 9 idle_cog"

section \<open>Properties of float rounding\<close>

text \<open>
  \<open>round_half_even\<close> rounds to a nearest integer, is monotone and odd, and keeps integers.
\<close>

lemma round_half_even_of_int: "round_half_even (of_int k) = k"
  by (simp add: round_half_even_def)

lemma round_half_even_bounds:
  "of_int (round_half_even x) \<le> x + 1 / 2" "x - 1 / 2 \<le> of_int (round_half_even x)"
  by (auto simp: round_half_even_def Let_def) linarith+

lemma round_half_even_mono:
  assumes "x \<le> y"
  shows "round_half_even x \<le> round_half_even y"
proof (cases "\<lfloor>x\<rfloor> = \<lfloor>y\<rfloor>")
  case True
  with assms show ?thesis by (auto simp: round_half_even_def Let_def)
next
  case False
  with assms have "\<lfloor>x\<rfloor> < \<lfloor>y\<rfloor>" using floor_mono[of x y] by linarith
  moreover have "round_half_even x \<le> \<lfloor>x\<rfloor> + 1" by (auto simp: round_half_even_def Let_def)
  moreover have "\<lfloor>y\<rfloor> \<le> round_half_even y" by (auto simp: round_half_even_def Let_def)
  ultimately show ?thesis by linarith
qed

text \<open>\<open>floor_log2\<close> is the binary exponent: \<open>2 ^ e \<le> x < 2 ^ (e + 1)\<close>.\<close>

lemma floor_log2_bounds:
  assumes "0 < x"
  shows "2 powi floor_log2 x \<le> x \<and> x < 2 powi (floor_log2 x + 1)"
proof (cases "1 \<le> x")
  case True
  define n where "n = \<lfloor>x\<rfloor>"
  have n: "0 < n" using True by (simp add: n_def)
  from bitlen_bounds[OF n] have b: "2 ^ nat (bitlen n - 1) \<le> n" "n < 2 ^ nat (bitlen n)" by auto
  have bl: "0 < bitlen n"
    using n bitlen_nonneg[of n] bitlen_eq_zero_iff[of n] by linarith
  have e: "floor_log2 x = bitlen n - 1" using True by (simp add: floor_log2_def n_def)
  have "(2::rat) powi (bitlen n - 1) = 2 ^ nat (bitlen n - 1)"
    using bl by (simp add: power_int_def)
  also have "\<dots> = of_int (2 ^ nat (bitlen n - 1))" by simp
  also have "\<dots> \<le> of_int n" using b(1) by (simp only: of_int_le_iff)
  also have "\<dots> \<le> x" by (simp add: n_def)
  finally have lo: "2 powi (bitlen n - 1) \<le> x" .
  have "n + 1 \<le> 2 ^ nat (bitlen n)" using b(2) by simp
  then have "(of_int (n + 1) :: rat) \<le> of_int (2 ^ nat (bitlen n))" by (simp only: of_int_le_iff)
  moreover have "x < of_int (n + 1)" unfolding n_def by linarith
  ultimately have "x < of_int (2 ^ nat (bitlen n))" by linarith
  also have "\<dots> = 2 powi (bitlen n)" using bl by (simp add: power_int_def)
  finally have hi: "x < 2 powi (bitlen n - 1 + 1)" by simp
  from lo hi e show ?thesis by simp
next
  case False
  then have x1: "x < 1" by simp
  define m where "m = \<lceil>1 / x\<rceil> - 1"
  have inv: "1 < 1 / x" using assms x1 by simp
  have m: "0 < m" using inv unfolding m_def by linarith
  have mlt: "of_int m < 1 / x" unfolding m_def by linarith
  have mge: "1 / x \<le> of_int (m + 1)" unfolding m_def by linarith
  from bitlen_bounds[OF m] have b: "2 ^ nat (bitlen m - 1) \<le> m" "m < 2 ^ nat (bitlen m)" by auto
  have bl: "0 < bitlen m"
    using m bitlen_nonneg[of m] bitlen_eq_zero_iff[of m] by linarith
  have e: "floor_log2 x = - bitlen m" using False by (simp add: floor_log2_def m_def)
  have "m + 1 \<le> 2 ^ nat (bitlen m)" using b(2) by simp
  then have "(of_int (m + 1) :: rat) \<le> of_int (2 ^ nat (bitlen m))" by (simp only: of_int_le_iff)
  with mge have "1 / x \<le> 2 ^ nat (bitlen m)" by simp
  then have "1 \<le> 2 ^ nat (bitlen m) * x" using assms by (simp add: field_simps)
  then have "1 / 2 ^ nat (bitlen m) \<le> x" by (simp add: field_simps)
  moreover have "(2::rat) powi (- bitlen m) = 1 / 2 ^ nat (bitlen m)"
    using bl by (simp add: power_int_def field_simps)
  ultimately have lo: "2 powi (- bitlen m) \<le> x" by simp
  have "(of_int (2 ^ nat (bitlen m - 1)) :: rat) \<le> of_int m" using b(1) by (simp only: of_int_le_iff)
  then have "(2::rat) ^ nat (bitlen m - 1) \<le> of_int m" by simp
  with mlt have "2 ^ nat (bitlen m - 1) < 1 / x" by linarith
  then have "2 ^ nat (bitlen m - 1) * x < 1" using assms by (simp add: field_simps)
  then have "x < 1 / 2 ^ nat (bitlen m - 1)" by (simp add: field_simps)
  moreover have "(2::rat) powi (- bitlen m + 1) = 1 / 2 ^ nat (bitlen m - 1)"
  proof -
    have "- bitlen m + 1 = - (bitlen m - 1)" by simp
    moreover have "0 \<le> bitlen m - 1" using bl by simp
    ultimately show ?thesis by (simp add: power_int_def field_simps)
  qed
  ultimately have hi: "x < 2 powi (- bitlen m + 1)" by simp
  from lo hi e show ?thesis by simp
qed


lemma round_half_even_minus: "round_half_even (- x) = - round_half_even x"
proof (cases "x = of_int \<lfloor>x\<rfloor>")
  case True
  then obtain k where k: "x = of_int k" ..
  have "round_half_even (of_int (- k)) = - k" by (rule round_half_even_of_int)
  then show ?thesis by (simp add: k round_half_even_of_int)
next
  case False
  then have lt: "of_int \<lfloor>x\<rfloor> < x" using of_int_floor_le[of x] by linarith
  have fl: "\<lfloor>- x\<rfloor> = - \<lfloor>x\<rfloor> - 1" using lt by (intro floor_unique) linarith+
  show ?thesis
    using lt by (auto simp: round_half_even_def Let_def fl)
qed

lemma floor_log2_mono:
  assumes "0 < x" "x \<le> y"
  shows "floor_log2 x \<le> floor_log2 y"
proof -
  from floor_log2_bounds[of x] floor_log2_bounds[of y] assms
  have lt: "(2::rat) powi floor_log2 x < 2 powi (floor_log2 y + 1)" by linarith
  have "floor_log2 x < floor_log2 y + 1"
  proof (rule ccontr)
    assume "\<not> floor_log2 x < floor_log2 y + 1"
    then have "floor_log2 y + 1 \<le> floor_log2 x" by simp
    then have "(2::rat) powi (floor_log2 y + 1) \<le> 2 powi floor_log2 x"
      by (rule power_int_increasing) simp
    with lt show False by simp
  qed
  then show ?thesis by simp
qed

lemma round_double_0 [simp]: "round_double 0 = 0"
  by (simp add: round_double_def)

lemma round_double_pos:
  assumes "0 < x"
  shows "round_double x =
           of_int (round_half_even (x / 2 powi (floor_log2 x - 52))) * 2 powi (floor_log2 x - 52)"
  using assms by (simp add: round_double_def Let_def)

lemma unit_times:
  "(2::rat) powi (e - 52) * 2 ^ 52 = 2 powi e"
  "(2::rat) powi (e - 52) * 2 ^ 53 = 2 powi (e + 1)"
proof -
  have "(2::rat) powi e = 2 powi ((e - 52) + 52)" by simp
  also have "\<dots> = 2 powi (e - 52) * 2 powi 52" by (subst power_int_add) simp_all
  finally show "(2::rat) powi (e - 52) * 2 ^ 52 = 2 powi e" by simp
  have eq: "(e - 52) + 53 = e + 1" by simp
  have "(2::rat) powi (e + 1) = 2 powi ((e - 52) + 53)" by (simp only: eq)
  also have "\<dots> = 2 powi (e - 52) * 2 powi 53" by (subst power_int_add) simp_all
  finally show "(2::rat) powi (e - 52) * 2 ^ 53 = 2 powi (e + 1)" by simp
qed

lemma round_double_pos_bounds:
  assumes "0 < x"
  shows "2 powi floor_log2 x \<le> round_double x \<and> round_double x \<le> 2 powi (floor_log2 x + 1)"
proof -
  define e where "e = floor_log2 x"
  define u :: rat where "u = 2 powi (e - 52)"
  have u: "0 < u" by (simp add: u_def)
  from floor_log2_bounds[OF assms] have b: "2 powi e \<le> x" "x < 2 powi (e + 1)"
    by (simp_all add: e_def)
  have "of_int (2 ^ 52) \<le> x / u"
    using b(1) u unit_times(1)[of e] by (simp add: u_def field_simps)
  then have "round_half_even (of_int (2 ^ 52)) \<le> round_half_even (x / u)"
    by (rule round_half_even_mono)
  then have "2 ^ 52 \<le> round_half_even (x / u)" by (simp only: round_half_even_of_int)
  then have "(of_int (2 ^ 52) :: rat) \<le> of_int (round_half_even (x / u))"
    by (simp only: of_int_le_iff)
  then have "of_int (2 ^ 52) * u \<le> of_int (round_half_even (x / u)) * u"
    using u by (simp only: mult_le_cancel_right_pos)
  moreover have "of_int (2 ^ 52) * u = 2 powi e"
    using unit_times(1)[of e] by (simp add: u_def mult.commute)
  moreover have rd: "round_double x = of_int (round_half_even (x / u)) * u"
    by (simp add: round_double_pos[OF assms] e_def u_def)
  ultimately have lo: "2 powi e \<le> round_double x" by (simp only:)
  have "x / u \<le> of_int (2 ^ 53)"
    using b(2) u unit_times(2)[of e] by (simp add: u_def field_simps)
  then have "round_half_even (x / u) \<le> round_half_even (of_int (2 ^ 53))"
    by (rule round_half_even_mono)
  then have "round_half_even (x / u) \<le> 2 ^ 53" by (simp only: round_half_even_of_int)
  then have "(of_int (round_half_even (x / u)) :: rat) \<le> of_int (2 ^ 53)"
    by (simp only: of_int_le_iff)
  then have "of_int (round_half_even (x / u)) * u \<le> of_int (2 ^ 53) * u"
    using u by (simp only: mult_le_cancel_right_pos)
  moreover have "of_int (2 ^ 53) * u = 2 powi (e + 1)"
    using unit_times(2)[of e] by (simp add: u_def mult.commute)
  ultimately have hi: "round_double x \<le> 2 powi (e + 1)" by (simp only: rd)
  from lo hi show ?thesis by (simp add: e_def)
qed

lemma round_double_minus: "round_double (- x) = - round_double x"
  by (simp add: round_double_def Let_def round_half_even_minus)

lemma round_double_pos_mono:
  assumes "0 < x" "x \<le> y"
  shows "round_double x \<le> round_double y"
proof (cases "floor_log2 x = floor_log2 y")
  case True
  have y: "0 < y" using assms by simp
  define u :: rat where "u = 2 powi (floor_log2 x - 52)"
  have u: "0 < u" by (simp add: u_def)
  have "x / u \<le> y / u" using assms u by (simp add: divide_right_mono)
  then have "round_half_even (x / u) \<le> round_half_even (y / u)" by (rule round_half_even_mono)
  then have "(of_int (round_half_even (x / u)) :: rat) \<le> of_int (round_half_even (y / u))"
    by (simp only: of_int_le_iff)
  then have "of_int (round_half_even (x / u)) * u \<le> of_int (round_half_even (y / u)) * u"
    using u by (simp only: mult_le_cancel_right_pos)
  then show ?thesis
    by (simp add: round_double_pos[OF assms(1)] round_double_pos[OF y] True[symmetric] u_def)
next
  case False
  have y: "0 < y" using assms by simp
  from False floor_log2_mono[OF assms] have "floor_log2 x + 1 \<le> floor_log2 y" by simp
  then have "(2::rat) powi (floor_log2 x + 1) \<le> 2 powi floor_log2 y"
    by (rule power_int_increasing) simp
  with round_double_pos_bounds[OF assms(1)] round_double_pos_bounds[OF y]
  show ?thesis by linarith
qed

lemma round_double_nonneg: "0 \<le> x \<Longrightarrow> 0 \<le> round_double x"
proof -
  assume "0 \<le> x"
  show ?thesis
  proof (cases "x = 0")
    case True then show ?thesis by simp
  next
    case False
    with \<open>0 \<le> x\<close> have "0 < x" by simp
    from round_double_pos_bounds[OF this] have "2 powi floor_log2 x \<le> round_double x" by simp
    moreover have "(0::rat) < 2 powi floor_log2 x" by simp
    ultimately show ?thesis by linarith
  qed
qed

lemma round_double_nonpos: "x \<le> 0 \<Longrightarrow> round_double x \<le> 0"
  using round_double_nonneg[of "- x"] by (simp add: round_double_minus)

text \<open>
  Rounding to double is monotone and keeps the sign; on a positive number its error is at
  most that number over \<open>2 ^ 53\<close>.
\<close>

lemma round_double_mono:
  assumes "x \<le> y"
  shows "round_double x \<le> round_double y"
proof -
  consider "0 < x" | "y < 0" | "x \<le> 0" "0 \<le> y" by linarith
  then show ?thesis
  proof cases
    case 1
    then show ?thesis using assms by (rule round_double_pos_mono)
  next
    case 2
    then have "0 < - y" "- y \<le> - x" using assms by simp_all
    then have "round_double (- y) \<le> round_double (- x)" by (rule round_double_pos_mono)
    then show ?thesis by (simp add: round_double_minus)
  next
    case 3
    then show ?thesis using round_double_nonneg[of y] round_double_nonpos[of x] by linarith
  qed
qed

lemma round_double_error_pos:
  assumes "0 < x"
  shows "\<bar>round_double x - x\<bar> \<le> x / 2 ^ 53"
proof -
  define e where "e = floor_log2 x"
  define u :: rat where "u = 2 powi (e - 52)"
  have u: "0 < u" by (simp add: u_def)
  from floor_log2_bounds[OF assms] have b: "2 powi e \<le> x" by (simp add: e_def)
  have ux: "u * 2 ^ 52 \<le> x" using b unit_times(1)[of e] by (simp add: u_def)
  have "\<bar>of_int (round_half_even (x / u)) - x / u\<bar> \<le> 1 / 2"
    using round_half_even_bounds[of "x / u"] by linarith
  then have "\<bar>of_int (round_half_even (x / u)) - x / u\<bar> * u \<le> 1 / 2 * u"
    using u by (simp only: mult_le_cancel_right_pos)
  moreover have "\<bar>of_int (round_half_even (x / u)) - x / u\<bar> * u
                   = \<bar>of_int (round_half_even (x / u)) * u - x\<bar>"
  proof -
    have "\<bar>of_int (round_half_even (x / u)) - x / u\<bar> * u
            = \<bar>(of_int (round_half_even (x / u)) - x / u) * u\<bar>"
      using u by (simp add: abs_mult)
    also have "(of_int (round_half_even (x / u)) - x / u) * u
                 = of_int (round_half_even (x / u)) * u - x"
      using u by (simp add: field_simps)
    finally show ?thesis .
  qed
  moreover have rd: "round_double x = of_int (round_half_even (x / u)) * u"
    by (simp add: round_double_pos[OF assms] e_def u_def)
  ultimately have "\<bar>round_double x - x\<bar> \<le> 1 / 2 * u"
    by (simp only:)
  also have "\<dots> \<le> x / 2 ^ 53" using ux by simp
  finally show ?thesis .
qed


lemma round_double_rel:
  assumes "0 < x" "s * l \<le> x" "x \<le> s * h"
  shows "s * (l * (1 - 1 / 2 ^ 53)) \<le> round_double x
         \<and> round_double x \<le> s * (h * (1 + 1 / 2 ^ 53))"
proof -
  define lo :: rat where "lo = 1 - 1 / 2 ^ 53"
  define hi :: rat where "hi = 1 + 1 / 2 ^ 53"
  have lo: "0 \<le> lo" and hi: "0 \<le> hi" by (simp_all add: lo_def hi_def)
  from round_double_error_pos[OF assms(1)]
  have "x - x / 2 ^ 53 \<le> round_double x" "round_double x \<le> x + x / 2 ^ 53"
    by linarith+
  moreover have "x * lo = x - x / 2 ^ 53" "x * hi = x + x / 2 ^ 53"
    by (simp_all add: lo_def hi_def algebra_simps)
  ultimately have b: "x * lo \<le> round_double x" "round_double x \<le> x * hi"
    by (simp_all only:)
  have "(s * l) * lo \<le> x * lo" using assms(2) lo by (rule mult_right_mono)
  with b(1) have "(s * l) * lo \<le> round_double x" by linarith
  moreover have "x * hi \<le> (s * h) * hi" using assms(3) hi by (rule mult_right_mono)
  with b(2) have "round_double x \<le> (s * h) * hi" by linarith
  ultimately show ?thesis unfolding lo_def hi_def by (simp only: mult.assoc)
qed

lemma round_double_gt_0: "0 < x \<Longrightarrow> 0 < round_double x"
proof -
  assume "0 < x"
  from round_double_pos_bounds[OF this] have "2 powi floor_log2 x \<le> round_double x" by simp
  moreover have "(0::rat) < 2 powi floor_log2 x" by simp
  ultimately show ?thesis by linarith
qed

lemma float_mul_rel:
  assumes "0 < a" "0 < k"
  shows "(a * k) * (1 - 1 / 2 ^ 53) ^ 3 \<le> float_mul (round_double a) (float_literal k)
         \<and> float_mul (round_double a) (float_literal k) \<le> (a * k) * (1 + 1 / 2 ^ 53) ^ 3"
proof -
  define lo :: rat where "lo = 1 - 1 / 2 ^ 53"
  define hi :: rat where "hi = 1 + 1 / 2 ^ 53"
  have lo: "0 \<le> lo" and hi: "0 \<le> hi" by (simp_all add: lo_def hi_def)
  from round_double_rel[OF assms(1), of a 1 1]
  have A: "a * lo \<le> round_double a" "round_double a \<le> a * hi" by (simp_all add: lo_def hi_def)
  from round_double_rel[OF assms(2), of k 1 1]
  have K: "k * lo \<le> round_double k" "round_double k \<le> k * hi" by (simp_all add: lo_def hi_def)
  have pa: "0 < round_double a" and pk: "0 < round_double k"
    using assms by (simp_all add: round_double_gt_0)
  have "(a * lo) * (k * lo) \<le> round_double a * round_double k"
    using A(1) K(1) assms lo pa by (intro mult_mono) simp_all
  then have l: "(a * k) * (lo * lo) \<le> round_double a * round_double k"
    by (simp add: mult_ac)
  have "round_double a * round_double k \<le> (a * hi) * (k * hi)"
    using A(2) K(2) assms hi pk by (intro mult_mono) simp_all
  then have h: "round_double a * round_double k \<le> (a * k) * (hi * hi)"
    by (simp add: mult_ac)
  have p: "0 < round_double a * round_double k" using pa pk by simp
  from round_double_rel[OF p l h]
  show ?thesis
    by (simp add: float_mul_def float_literal_def lo_def hi_def power3_eq_cube mult.assoc)
qed

text \<open>
  A weighted sum of two positive ratios, computed in floats as the score is, differs from
  its exact value by at most that value over \<open>2 ^ 50\<close>.
\<close>

lemma weighted_score_close:
  fixes a b :: rat
  assumes "0 < a" "0 < b"
  defines "s \<equiv> a * (4 / 10) + b * (6 / 10)"
  shows "\<bar>float_add (float_mul (round_double a) (float_literal (4 / 10)))
                    (float_mul (round_double b) (float_literal (6 / 10))) - s\<bar> \<le> s / 2 ^ 50"
proof -
  define lo :: rat where "lo = 1 - 1 / 2 ^ 53"
  define hi :: rat where "hi = 1 + 1 / 2 ^ 53"
  define P where "P = float_mul (round_double a) (float_literal (4 / 10))"
  define Q where "Q = float_mul (round_double b) (float_literal (6 / 10))"
  have s: "0 < s" using assms(1,2) by (simp add: s_def add_pos_pos)
  from float_mul_rel[OF assms(1), of "4 / 10"]
  have P: "(a * (4 / 10)) * lo ^ 3 \<le> P" "P \<le> (a * (4 / 10)) * hi ^ 3"
    by (simp_all add: P_def lo_def hi_def)
  from float_mul_rel[OF assms(2), of "6 / 10"]
  have Q: "(b * (6 / 10)) * lo ^ 3 \<le> Q" "Q \<le> (b * (6 / 10)) * hi ^ 3"
    by (simp_all add: Q_def lo_def hi_def)
  have l: "s * lo ^ 3 \<le> P + Q" using P(1) Q(1) by (simp add: s_def algebra_simps)
  have h: "P + Q \<le> s * hi ^ 3" using P(2) Q(2) by (simp add: s_def algebra_simps)
  have lo3: "0 < lo ^ 3" by (simp add: lo_def)
  have pq: "0 < P + Q"
  proof -
    have "0 < s * lo ^ 3" using s lo3 by simp
    with l show ?thesis by linarith
  qed
  from round_double_rel[OF pq l h]
  have b: "s * (lo ^ 3 * lo) \<le> float_add P Q" "float_add P Q \<le> s * (hi ^ 3 * hi)"
    by (simp_all add: float_add_def lo_def hi_def)
  have c1: "1 - 1 / 2 ^ 50 \<le> lo ^ 3 * lo" by (simp add: lo_def power_divide)
  have c2: "hi ^ 3 * hi \<le> 1 + 1 / 2 ^ 50" by (simp add: hi_def power_divide)
  have "s * (1 - 1 / 2 ^ 50) \<le> s * (lo ^ 3 * lo)"
    using c1 s by (intro mult_left_mono) simp_all
  moreover have "s * (hi ^ 3 * hi) \<le> s * (1 + 1 / 2 ^ 50)"
    using c2 s by (intro mult_left_mono) simp_all
  ultimately have "s * (1 - 1 / 2 ^ 50) \<le> float_add P Q" "float_add P Q \<le> s * (1 + 1 / 2 ^ 50)"
    using b by linarith+
  then have "s - s / 2 ^ 50 \<le> float_add P Q" "float_add P Q \<le> s + s / 2 ^ 50"
    by (simp_all add: algebra_simps)
  then show ?thesis unfolding P_def Q_def by linarith
qed

section \<open>Properties of the window tracker\<close>

lemma ensure_utc_id: "ensure_utc v = v"
  by (cases v) (simp_all add: ensure_utc_def)

text \<open>
  C6. The window advance: when the start is absent, or at least the window's
  duration has passed since it, the result is a fresh window \<open>(now, 0)\<close>; otherwise the
  stored start and count come back unchanged (a missing count reads as 0).
\<close>

theorem window_state_advance:
  "(start = None \<or> (\<exists>s. start = Some s \<and> of_int window_seconds \<le> total_seconds (now - s))
      \<longrightarrow> window_state start cnt window_seconds now = (now, 0))
   \<and> (\<forall>s. start = Some s \<and> total_seconds (now - s) < of_int window_seconds
      \<longrightarrow> (\<forall>c. cnt = Some c \<longrightarrow> window_state start cnt window_seconds now = (s, c))
        \<and> (cnt = None \<longrightarrow> window_state start cnt window_seconds now = (s, 0)))"
  by (auto simp: window_state_def ensure_utc_id int_or_0_def)

theorem window_state_advance_witness:
  "window_state None (Some 7) 60 1000 = (1000, 0)
   \<and> window_state (Some 0) (Some 7) 60 60000000 = (60000000, 0)
   \<and> window_state (Some 1) (Some 7) 60 60000000 = (1, 7)
   \<and> window_state (Some 1) None 60 60000000 = (1, 0)"
  using window_state_advance [of None 60 1000 "Some 7"]
        window_state_advance [of "Some 0" 60 60000000 "Some 7"]
        window_state_advance [of "Some 1" 60 60000000 "Some 7"]
        window_state_advance [of "Some 1" 60 60000000 None]
  by (simp add: total_seconds_def)

section \<open>Properties of the eligibility filter\<close>

lemma build_key_candidate_Some:
  assumes "build_key_candidate doc now = Some cand"
  shows "cand_score cand =
            float_add
              (float_mul (true_div (int_or_0 (rpm_limit doc) - advanced_minute_count doc now)
                                   (int_or_0 (rpm_limit doc)))
                         (float_literal (4 / 10)))
              (float_mul (true_div (int_or_0 (rpd_limit doc) - advanced_day_count doc now)
                                   (int_or_0 (rpd_limit doc)))
                         (float_literal (6 / 10)))
         \<and> cand_doc cand = doc
         \<and> (cand_minute_start cand, cand_minute_count cand) =
              window_state (minute_window_started_at doc) (minute_window_count doc) 60 now
         \<and> (cand_day_start cand, cand_day_count cand) =
              window_state (day_started_at doc) (day_count doc) 86400 now
         \<and> cand_last_used_at cand = last_used_at doc"
  using assms
  by (auto simp: build_key_candidate_def ensure_utc_id Let_def advanced_minute_count_def
        advanced_day_count_def split: option.splits prod.splits if_splits)

lemma build_key_candidate_None:
  "build_key_candidate doc now = None \<longleftrightarrow>
      (enabled doc = Some False
       \<or> (\<exists>c. cooldown_until doc = Some c \<and> now < c)
       \<or> int_or_0 (rpm_limit doc) \<le> 0
       \<or> int_or_0 (rpd_limit doc) \<le> 0
       \<or> int_or_0 (rpm_limit doc) \<le> advanced_minute_count doc now
       \<or> int_or_0 (rpd_limit doc) \<le> advanced_day_count doc now)"
  by (auto simp: build_key_candidate_def get_enabled_def ensure_utc_id Let_def
        advanced_minute_count_def advanced_day_count_def split: option.splits prod.splits)

text \<open>
  C2. The eligibility filter rejects a credential exactly when it is disabled (its
  \<open>enabled\<close> field is \<open>False\<close>), or cooling down (\<open>now < cooldown_until\<close>), or one of its limits
  is not positive, or the advanced minute count has reached \<open>rpm_limit\<close>, or the advanced
  day count has reached \<open>rpd_limit\<close>; a missing limit reads as 0. Otherwise the candidate
  it returns carries the document, the advanced window states and the score
  \<open>(rpm_limit - minute_count) / rpm_limit * 0.4 + (rpd_limit - day_count) / rpd_limit * 0.6\<close>
  over the advanced counts, each operation rounded to a float; the score differs from the
  exact value of that expression by at most that value over \<open>2 ^ 50\<close>.
\<close>

theorem build_key_candidate_eligibility:
  fixes doc :: key_doc and now :: datetime
  defines "rpm \<equiv> (case rpm_limit doc of None \<Rightarrow> 0 | Some n \<Rightarrow> n)"
  defines "rpd \<equiv> (case rpd_limit doc of None \<Rightarrow> 0 | Some n \<Rightarrow> n)"
  defines "minute_count \<equiv> advanced_minute_count doc now"
  defines "day_cnt \<equiv> advanced_day_count doc now"
  defines "exact \<equiv> 4 / 10 * (of_int (rpm - minute_count) / of_int rpm)
                   + 6 / 10 * (of_int (rpd - day_cnt) / of_int rpd) :: rat"
  shows "(build_key_candidate doc now = None \<longleftrightarrow>
            (enabled doc = Some False
             \<or> (\<exists>c. cooldown_until doc = Some c \<and> now < c)
             \<or> rpm \<le> 0
             \<or> rpd \<le> 0
             \<or> rpm \<le> minute_count
             \<or> rpd \<le> day_cnt))
   \<and> (\<forall>cand. build_key_candidate doc now = Some cand \<longrightarrow>
         cand_score cand =
            float_add (float_mul (true_div (rpm - minute_count) rpm) (float_literal (4 / 10)))
                      (float_mul (true_div (rpd - day_cnt) rpd) (float_literal (6 / 10)))
         \<and> \<bar>cand_score cand - exact\<bar> \<le> exact / 2 ^ 50
         \<and> cand_doc cand = doc
         \<and> (cand_minute_start cand, cand_minute_count cand) =
              window_state (minute_window_started_at doc) (minute_window_count doc) 60 now
         \<and> (cand_day_start cand, cand_day_count cand) =
              window_state (day_started_at doc) (day_count doc) 86400 now
         \<and> cand_last_used_at cand = last_used_at doc)"
proof (rule conjI)
  have r: "int_or_0 (rpm_limit doc) = rpm" "int_or_0 (rpd_limit doc) = rpd"
    by (simp_all add: int_or_0_def rpm_def rpd_def)
  show "build_key_candidate doc now = None \<longleftrightarrow>
            (enabled doc = Some False
             \<or> (\<exists>c. cooldown_until doc = Some c \<and> now < c)
             \<or> rpm \<le> 0
             \<or> rpd \<le> 0
             \<or> rpm \<le> minute_count
             \<or> rpd \<le> day_cnt)"
    using build_key_candidate_None [of doc now]
    by (simp only: r minute_count_def day_cnt_def)
  have main: "cand_score cand =
            float_add (float_mul (true_div (rpm - minute_count) rpm) (float_literal (4 / 10)))
                      (float_mul (true_div (rpd - day_cnt) rpd) (float_literal (6 / 10)))
         \<and> \<bar>cand_score cand - exact\<bar> \<le> exact / 2 ^ 50
         \<and> cand_doc cand = doc
         \<and> (cand_minute_start cand, cand_minute_count cand) =
              window_state (minute_window_started_at doc) (minute_window_count doc) 60 now
         \<and> (cand_day_start cand, cand_day_count cand) =
              window_state (day_started_at doc) (day_count doc) 86400 now
         \<and> cand_last_used_at cand = last_used_at doc"
    if c: "build_key_candidate doc now = Some cand" for cand
  proof -
    from build_key_candidate_Some [OF c]
    have s: "cand_score cand =
            float_add (float_mul (true_div (rpm - minute_count) rpm) (float_literal (4 / 10)))
                      (float_mul (true_div (rpd - day_cnt) rpd) (float_literal (6 / 10)))"
      and rest: "cand_doc cand = doc"
        "(cand_minute_start cand, cand_minute_count cand) =
              window_state (minute_window_started_at doc) (minute_window_count doc) 60 now"
        "(cand_day_start cand, cand_day_count cand) =
              window_state (day_started_at doc) (day_count doc) 86400 now"
        "cand_last_used_at cand = last_used_at doc"
      by (simp_all only: r minute_count_def day_cnt_def)
    from c have "build_key_candidate doc now \<noteq> None" by simp
    then have pos: "0 < rpm" "0 < rpd" "minute_count < rpm" "day_cnt < rpd"
      using build_key_candidate_None [of doc now]
      by (simp_all add: r minute_count_def day_cnt_def)
    define a :: rat where "a = of_int (rpm - minute_count) / of_int rpm"
    define b :: rat where "b = of_int (rpd - day_cnt) / of_int rpd"
    have ab: "0 < a" "0 < b" using pos by (simp_all add: a_def b_def)
    have ex: "exact = a * (4 / 10) + b * (6 / 10)"
      unfolding exact_def a_def b_def
      by (simp only: mult.commute [of "4 / 10"] mult.commute [of "6 / 10"])
    from weighted_score_close [OF ab]
    have "\<bar>cand_score cand - exact\<bar> \<le> exact / 2 ^ 50"
      by (simp only: s ex true_div_def a_def b_def)
    with s rest show ?thesis by simp
  qed
  then show "\<forall>cand. build_key_candidate doc now = Some cand \<longrightarrow>
         cand_score cand =
            float_add (float_mul (true_div (rpm - minute_count) rpm) (float_literal (4 / 10)))
                      (float_mul (true_div (rpd - day_cnt) rpd) (float_literal (6 / 10)))
         \<and> \<bar>cand_score cand - exact\<bar> \<le> exact / 2 ^ 50
         \<and> cand_doc cand = doc
         \<and> (cand_minute_start cand, cand_minute_count cand) =
              window_state (minute_window_started_at doc) (minute_window_count doc) 60 now
         \<and> (cand_day_start cand, cand_day_count cand) =
              window_state (day_started_at doc) (day_count doc) 86400 now
         \<and> cand_last_used_at cand = last_used_at doc"
    by blast
qed

lemma earlier_score:
  "float_add (float_mul (true_div (4 - 3) 4) (float_literal (4 / 10)))
             (float_mul (true_div (4 - 1) 4) (float_literal (6 / 10)))
     = 4953959590107545 / 9007199254740992"
  by code_simp

lemma later_score:
  "float_add (float_mul (true_div (4 - 0) 4) (float_literal (4 / 10)))
             (float_mul (true_div (4 - 3) 4) (float_literal (6 / 10)))
     = 2476979795053773 / 4503599627370496"
  by code_simp

theorem build_key_candidate_eligibility_witness:
  "enabled disabled_doc = Some False
   \<and> build_key_candidate disabled_doc 100 = None
   \<and> build_key_candidate busy_doc 100 = None
   \<and> (\<exists>cand. build_key_candidate earlier_doc (sample_clock 0) = Some cand
         \<and> cand_score cand = 4953959590107545 / 9007199254740992)
   \<and> (\<exists>cand. build_key_candidate later_doc (sample_clock 0) = Some cand
         \<and> cand_score cand = 2476979795053773 / 4503599627370496)"
proof -
  have off: "enabled disabled_doc = Some False"
    by (simp add: disabled_doc_def)
  with build_key_candidate_eligibility [of disabled_doc 100]
  have disabled: "build_key_candidate disabled_doc 100 = None" by blast
  have "(case rpm_limit busy_doc of None \<Rightarrow> 0 | Some n \<Rightarrow> n)
          \<le> advanced_minute_count busy_doc 100"
    by (simp add: busy_doc_def sample_doc_def int_or_0_def advanced_minute_count_def
          window_state_def ensure_utc_id total_seconds_def)
  with build_key_candidate_eligibility [of busy_doc 100]
  have busy: "build_key_candidate busy_doc 100 = None" by blast
  have e: "enabled earlier_doc = Some True" "cooldown_until earlier_doc = None"
    "(case rpm_limit earlier_doc of None \<Rightarrow> 0 | Some n \<Rightarrow> n) = 4"
    "(case rpd_limit earlier_doc of None \<Rightarrow> 0 | Some n \<Rightarrow> n) = 4"
    "advanced_minute_count earlier_doc (sample_clock 0) = 3"
    "advanced_day_count earlier_doc (sample_clock 0) = 1"
    by (simp_all add: earlier_doc_def sample_doc_def sample_clock_def int_or_0_def
          advanced_minute_count_def advanced_day_count_def window_state_def ensure_utc_id
          total_seconds_def)
  note elig_e = build_key_candidate_eligibility [of earlier_doc "sample_clock 0"]
  from elig_e have "build_key_candidate earlier_doc (sample_clock 0) \<noteq> None"
    by (simp add: e)
  then obtain c1 where c1: "build_key_candidate earlier_doc (sample_clock 0) = Some c1"
    by blast
  with elig_e have "cand_score c1 =
      float_add
        (float_mul
           (true_div ((case rpm_limit earlier_doc of None \<Rightarrow> 0 | Some n \<Rightarrow> n)
                        - advanced_minute_count earlier_doc (sample_clock 0))
                     (case rpm_limit earlier_doc of None \<Rightarrow> 0 | Some n \<Rightarrow> n))
           (float_literal (4 / 10)))
        (float_mul
           (true_div ((case rpd_limit earlier_doc of None \<Rightarrow> 0 | Some n \<Rightarrow> n)
                        - advanced_day_count earlier_doc (sample_clock 0))
                     (case rpd_limit earlier_doc of None \<Rightarrow> 0 | Some n \<Rightarrow> n))
           (float_literal (6 / 10)))"
    by blast
  then have s1: "cand_score c1 = 4953959590107545 / 9007199254740992"
    by (simp only: e earlier_score)
  have l: "enabled later_doc = Some True" "cooldown_until later_doc = None"
    "(case rpm_limit later_doc of None \<Rightarrow> 0 | Some n \<Rightarrow> n) = 4"
    "(case rpd_limit later_doc of None \<Rightarrow> 0 | Some n \<Rightarrow> n) = 4"
    "advanced_minute_count later_doc (sample_clock 0) = 0"
    "advanced_day_count later_doc (sample_clock 0) = 3"
    by (simp_all add: later_doc_def sample_doc_def sample_clock_def int_or_0_def
          advanced_minute_count_def advanced_day_count_def window_state_def ensure_utc_id
          total_seconds_def)
  note elig_l = build_key_candidate_eligibility [of later_doc "sample_clock 0"]
  from elig_l have "build_key_candidate later_doc (sample_clock 0) \<noteq> None"
    by (simp add: l)
  then obtain c2 where c2: "build_key_candidate later_doc (sample_clock 0) = Some c2"
    by blast
  with elig_l have "cand_score c2 =
      float_add
        (float_mul
           (true_div ((case rpm_limit later_doc of None \<Rightarrow> 0 | Some n \<Rightarrow> n)
                        - advanced_minute_count later_doc (sample_clock 0))
                     (case rpm_limit later_doc of None \<Rightarrow> 0 | Some n \<Rightarrow> n))
           (float_literal (4 / 10)))
        (float_mul
           (true_div ((case rpd_limit later_doc of None \<Rightarrow> 0 | Some n \<Rightarrow> n)
                        - advanced_day_count later_doc (sample_clock 0))
                     (case rpd_limit later_doc of None \<Rightarrow> 0 | Some n \<Rightarrow> n))
           (float_literal (6 / 10)))"
    by blast
  then have s2: "cand_score c2 = 2476979795053773 / 4503599627370496"
    by (simp only: l later_score)
  from off disabled busy c1 s1 c2 s2 show ?thesis by blast
qed

section \<open>Properties of the scheduler\<close>

lemma fst_select_key_candidates:
  "fst (select_key_candidates e gid w) =
     sort_key candidate_sort_key
       (List.map_filter (\<lambda>doc. build_key_candidate doc (wall_clock e (clock_reads w)))
          (list_ai_api_keys gid (db_keys w)))"
  by (simp add: select_key_candidates_def now_utc_def Let_def)

lemma snd_select_key_candidates:
  "snd (select_key_candidates e gid w) = w\<lparr>clock_reads := Suc (clock_reads w)\<rparr>"
  by (simp add: select_key_candidates_def now_utc_def Let_def)

lemma sort_key_nth_le:
  assumes "i < j" "j < length xs"
  shows "f (sort_key f xs ! i) \<le> f (sort_key f xs ! j)"
proof -
  have "sorted (map f (sort_key f xs))" by (rule sorted_sort_key)
  moreover have "i < j" "j < length (map f (sort_key f xs))" using assms by simp_all
  ultimately have "map f (sort_key f xs) ! i \<le> map f (sort_key f xs) ! j"
    by (simp only: sorted_iff_nth_mono_less)
  then show ?thesis using assms by simp
qed

lemma candidate_sort_key_le:
  "candidate_sort_key a \<le> candidate_sort_key b \<longleftrightarrow>
     cand_score b < cand_score a
     \<or> (cand_score a = cand_score b \<and> last_used_key a \<le> last_used_key b)"
  by (auto simp: candidate_sort_key_def last_used_key_def)

lemmas sample_eval =
  sample_doc_def sample_env_def sample_world_def sample_clock_def
  list_ai_api_keys_def build_key_candidate_def get_enabled_def ensure_utc_id int_or_0_def
  window_state_def total_seconds_def candidate_sort_key_def datetime_min_def
  List.map_filter_def

text \<open>
  C1. The candidate list holds exactly the candidates of the eligible credentials of the
  pool; it is sorted by descending score, the score being the float the eligibility
  filter computes, ties broken by ascending \<open>last_used_at\<close> with a missing timestamp read
  as \<open>datetime.min\<close>; so among equal scores a never-used credential comes before every
  credential that has a recorded \<open>last_used_at\<close>. A recorded \<open>last_used_at\<close> is a reading of
  the clock, written by the reservation and by nothing else, hence later than
  \<open>datetime.min\<close>.
\<close>

theorem select_key_candidates_order:
  fixes e gid w
  defines "cs \<equiv> fst (select_key_candidates e gid w)"
  defines "now \<equiv> wall_clock e (clock_reads w)"
  defines "pool \<equiv> list_ai_api_keys gid (db_keys w)"
  shows "mset cs = mset (map (\<lambda>doc. the (build_key_candidate doc now))
                         (filter (\<lambda>doc. build_key_candidate doc now \<noteq> None) pool))
    \<and> (\<forall>i j. i < j \<and> j < length cs \<longrightarrow>
          cand_score (cs ! j) \<le> cand_score (cs ! i)
          \<and> (cand_score (cs ! i) = cand_score (cs ! j) \<longrightarrow>
                last_used_key (cs ! i) \<le> last_used_key (cs ! j)))
    \<and> (\<forall>i j t. i < length cs \<and> j < length cs
          \<and> cand_score (cs ! i) = cand_score (cs ! j)
          \<and> cand_last_used_at (cs ! i) = None
          \<and> cand_last_used_at (cs ! j) = Some t \<and> datetime_min < t \<longrightarrow> i < j)"
proof (intro conjI allI impI)
  show "mset cs = mset (map (\<lambda>doc. the (build_key_candidate doc now))
                         (filter (\<lambda>doc. build_key_candidate doc now \<noteq> None) pool))"
    unfolding cs_def now_def pool_def fst_select_key_candidates
    by (simp add: List.map_filter_def comp_def)
next
  fix i j assume ij: "i < j \<and> j < length cs"
  have "candidate_sort_key (cs ! i) \<le> candidate_sort_key (cs ! j)"
    using ij unfolding cs_def fst_select_key_candidates
    by (intro sort_key_nth_le) simp_all
  then have k: "cand_score (cs ! j) < cand_score (cs ! i)
     \<or> (cand_score (cs ! i) = cand_score (cs ! j)
         \<and> last_used_key (cs ! i) \<le> last_used_key (cs ! j))"
    by (simp add: candidate_sort_key_le)
  from k show "cand_score (cs ! j) \<le> cand_score (cs ! i)" by auto
  assume "cand_score (cs ! i) = cand_score (cs ! j)"
  with k show "last_used_key (cs ! i) \<le> last_used_key (cs ! j)" by auto
next
  fix i j t
  assume a: "i < length cs \<and> j < length cs
          \<and> cand_score (cs ! i) = cand_score (cs ! j)
          \<and> cand_last_used_at (cs ! i) = None
          \<and> cand_last_used_at (cs ! j) = Some t \<and> datetime_min < t"
  show "i < j"
  proof (rule ccontr)
    assume "\<not> i < j"
    moreover have "i \<noteq> j" using a by auto
    ultimately have ji: "j < i" by simp
    have "candidate_sort_key (cs ! j) \<le> candidate_sort_key (cs ! i)"
      using ji a unfolding cs_def fst_select_key_candidates
      by (intro sort_key_nth_le) simp_all
    then have "last_used_key (cs ! j) \<le> last_used_key (cs ! i)"
      using a by (simp add: candidate_sort_key_le)
    then show False using a by (simp add: last_used_key_def)
  qed
qed

theorem select_key_candidates_order_witness:
  "map (\<lambda>c. (name (cand_doc c), cand_score c, cand_last_used_at c))
     (fst (select_key_candidates sample_env 1 (sample_world mixed_pool)))
   = [(''fresh'', 1, None), (''used'', 1, Some 62000000000000000)]
   \<and> datetime_min < 62000000000000000
   \<and> map (\<lambda>c. (name (cand_doc c), cand_score c))
        (fst (select_key_candidates sample_env 1 (sample_world rounding_pool)))
      = [(''later'', 2476979795053773 / 4503599627370496),
         (''earlier'', 4953959590107545 / 9007199254740992)]"
proof -
  let ?cs = "fst (select_key_candidates sample_env 1 (sample_world mixed_pool))"
  let ?rs = "fst (select_key_candidates sample_env 1 (sample_world rounding_pool))"
  have ev: "map (\<lambda>c. (name (cand_doc c), cand_score c, cand_last_used_at c)) ?cs
              = [(''fresh'', 1, None), (''used'', 1, Some 62000000000000000)]"
    by code_simp
  then obtain a b where ab: "?cs = [a, b]" "cand_score a = 1" "cand_score b = 1"
    "cand_last_used_at a = None" "cand_last_used_at b = Some 62000000000000000"
    by (auto simp: map_eq_Cons_conv)
  note ord = select_key_candidates_order [of sample_env 1 "sample_world mixed_pool"]
  have hyps: "0 < length ?cs \<and> 1 < length ?cs
        \<and> cand_score (?cs ! 0) = cand_score (?cs ! 1)
        \<and> cand_last_used_at (?cs ! 0) = None
        \<and> cand_last_used_at (?cs ! 1) = Some 62000000000000000
        \<and> datetime_min < 62000000000000000"
    by (simp add: ab datetime_min_def)
  with ord have first: "(0::nat) < 1" by blast
  have rv: "map (\<lambda>c. (name (cand_doc c), cand_score c)) ?rs
              = [(''later'', 2476979795053773 / 4503599627370496),
                 (''earlier'', 4953959590107545 / 9007199254740992)]"
    by code_simp
  then obtain p q where pq: "?rs = [p, q]"
    "cand_score p = 2476979795053773 / 4503599627370496"
    "cand_score q = 4953959590107545 / 9007199254740992"
    by (auto simp: map_eq_Cons_conv)
  note ord_r = select_key_candidates_order [of sample_env 1 "sample_world rounding_pool"]
  have "(0::nat) < 1 \<and> 1 < length ?rs" by (simp add: pq)
  with ord_r have "cand_score (?rs ! 1) \<le> cand_score (?rs ! 0)" by blast
  with first ev rv show ?thesis by (simp add: datetime_min_def)
qed

section \<open>Properties of the credential updates\<close>

lemma apply_field_key [simp]:
  "guild_id (apply_field f d) = guild_id d" "name (apply_field f d) = name d"
  by (cases f; simp)+

lemma apply_update_key [simp]:
  "guild_id (apply_update upd d) = guild_id d" "name (apply_update upd d) = name d"
  unfolding apply_update_def by (induction upd arbitrary: d; simp)+

lemma get_update_same:
  "get_ai_api_key g n (update_ai_api_key g n upd docs) =
     map_option (apply_update upd) (get_ai_api_key g n docs)"
  by (induction docs) (auto simp: get_ai_api_key_def)


lemma apply_key_usage_fields:
  "apply_update (key_usage_fields now candidate) d =
     d\<lparr>minute_window_started_at := Some (cand_minute_start candidate),
       minute_window_count := Some (cand_minute_count candidate + 1),
       day_started_at := Some (cand_day_start candidate),
       day_count := Some (cand_day_count candidate + 1),
       last_used_at := Some now,
       last_error := None,
       last_error_code := None,
       last_error_at := None,
       updated_at := Some now\<rparr>"
  by (simp add: apply_update_def key_usage_fields_def)

lemma db_keys_update_key_usage:
  "db_keys (update_key_usage e doc candidate w) =
     update_ai_api_key (guild_id doc) (name doc)
       (key_usage_fields (wall_clock e (clock_reads w)) candidate) (db_keys w)"
  by (simp add: update_key_usage_def now_utc_def)





section \<open>Properties of the error records\<close>

lemma fst_set_key_error:
  "fst (set_key_error e doc code message cooldown_seconds disable w) =
     (case slice_message message of Inl exc \<Rightarrow> Some exc | Inr sliced \<Rightarrow> None)"
  by (simp add: set_key_error_def key_error_fields_def now_utc_def split: sum.splits)

lemma set_key_error_raises:
  assumes "slice_message message = Inl exc"
  shows "set_key_error e doc code message cooldown_seconds disable w =
           (Some exc, w\<lparr>clock_reads := Suc (clock_reads w)\<rparr>)"
  using assms by (simp add: set_key_error_def key_error_fields_def now_utc_def)

lemma db_keys_set_key_error:
  assumes "key_error_fields (wall_clock e (clock_reads w)) code message cooldown_seconds disable
             = Inr update"
  shows "db_keys (snd (set_key_error e doc code message cooldown_seconds disable w)) =
           update_ai_api_key (guild_id doc) (name doc) update (db_keys w)"
  using assms by (simp add: set_key_error_def now_utc_def)

lemma clock_reads_update_key_usage [simp]:
  "clock_reads (update_key_usage e doc candidate w) = Suc (clock_reads w)"
  by (simp add: update_key_usage_def now_utc_def)

lemma clock_reads_set_key_error [simp]:
  "clock_reads (snd (set_key_error e doc code message cooldown_seconds disable w))
     = Suc (clock_reads w)"
  by (simp add: set_key_error_def now_utc_def split: sum.splits)

lemma notices_set_key_error [simp]:
  "notices (snd (set_key_error e doc code message cooldown_seconds disable w)) = notices w"
  by (simp add: set_key_error_def now_utc_def split: sum.splits)

lemma key_error_fields_Inr:
  assumes "slice_message message = Inr sliced"
  shows "\<exists>update. key_error_fields now code message cooldown_seconds disable = Inr update
           \<and> (\<forall>d. apply_update update d =
                 (let d1 = d\<lparr>last_error_code := Some code,
                              last_error := Some sliced,
                              last_error_at := Some now,
                              updated_at := Some now\<rparr>;
                      d2 = (case cooldown_seconds of
                              None \<Rightarrow> d1
                            | Some n \<Rightarrow>
                                if n \<noteq> 0
                                then d1\<lparr>cooldown_until := Some (now + timedelta_seconds n)\<rparr>
                                else d1)
                  in if disable then d2\<lparr>enabled := Some False\<rparr> else d2))"
  using assms
  by (simp add: apply_update_def key_error_fields_def Let_def split: option.splits)

text \<open>
  The record of an error whose message can be sliced: the credential of that name gets
  the error fields, the cooldown if the duration is neither absent nor zero, and the
  disabling if asked for.
\<close>

lemma set_key_error_record:
  assumes "get_ai_api_key (guild_id doc) (name doc) (db_keys w) = Some d"
    and "slice_message message = Inr sliced"
  shows "get_ai_api_key (guild_id doc) (name doc)
           (db_keys (snd (set_key_error e doc code message cooldown_seconds disable w))) =
         Some (let now = wall_clock e (clock_reads w);
                   d1 = d\<lparr>last_error_code := Some code,
                           last_error := Some sliced,
                           last_error_at := Some now,
                           updated_at := Some now\<rparr>;
                   d2 = (case cooldown_seconds of
                           None \<Rightarrow> d1
                         | Some n \<Rightarrow>
                             if n \<noteq> 0
                             then d1\<lparr>cooldown_until := Some (now + timedelta_seconds n)\<rparr>
                             else d1)
               in if disable then d2\<lparr>enabled := Some False\<rparr> else d2)"
proof -
  from key_error_fields_Inr [OF assms(2), of "wall_clock e (clock_reads w)" code
         cooldown_seconds disable]
  obtain update where u:
    "key_error_fields (wall_clock e (clock_reads w)) code message cooldown_seconds disable
       = Inr update"
    "\<And>d. apply_update update d =
       (let d1 = d\<lparr>last_error_code := Some code,
                    last_error := Some sliced,
                    last_error_at := Some (wall_clock e (clock_reads w)),
                    updated_at := Some (wall_clock e (clock_reads w))\<rparr>;
            d2 = (case cooldown_seconds of
                    None \<Rightarrow> d1
                  | Some n \<Rightarrow>
                      if n \<noteq> 0
                      then d1\<lparr>cooldown_until :=
                                Some (wall_clock e (clock_reads w) + timedelta_seconds n)\<rparr>
                      else d1)
        in if disable then d2\<lparr>enabled := Some False\<rparr> else d2)"
    by blast
  show ?thesis
    by (simp add: db_keys_set_key_error [OF u(1)] get_update_same assms(1) u(2) Let_def)
qed

text \<open>
  \<open>last_used_at\<close> has one writer: the reservation sets it to the reading of the clock, the
  error record leaves it as it was.
\<close>

lemma last_used_at_reservation:
  "last_used_at (apply_update (key_usage_fields now candidate) d) = Some now"
  by (simp add: apply_key_usage_fields)

lemma last_used_at_error_record:
  assumes "key_error_fields now code message cooldown_seconds disable = Inr update"
  shows "last_used_at (apply_update update d) = last_used_at d"
proof (cases "slice_message message")
  case (Inl exc)
  with assms show ?thesis by (simp add: key_error_fields_def)
next
  case (Inr sliced)
  from key_error_fields_Inr [OF Inr, of now code cooldown_seconds disable] assms
  show ?thesis by (auto simp: Let_def split: option.splits)
qed

text \<open>
  The outcome of \<open>_set_key_error\<close> as the loop sees it: it goes on with the state left
  when nothing was raised.
\<close>

lemma set_key_error_outcome:
  "(case p of (Some exc, w) \<Rightarrow> A exc w | (None, w) \<Rightarrow> B w) =
     (case fst p of Some exc \<Rightarrow> A exc (snd p) | None \<Rightarrow> B (snd p))"
  by (cases p) (simp split: option.splits)

lemma attempt_rate_limited:
  assumes "decrypt_api_key e (encrypted_api_key (cand_doc c)) = Inr api_key"
    and "request_json e i api_key = Inr resp"
    and "resp_status resp = 429"
    and "rate_limit_cooldown e (resp_retry_after resp) = Inr cooldown"
    and "slice_message (response_error_message resp) = Inr sliced"
  shows "attempt_candidates e gid i last_err (c # rest) w =
           attempt_candidates e gid (Suc i)
             (JStr ''AI rate limit reached. Retrying with another key.'') rest
             (snd (set_key_error e (cand_doc c) 429 (response_error_message resp) (Some cooldown)
                     False (update_key_usage e (cand_doc c) c w)))"
  using assms by (simp add: Let_def set_key_error_outcome fst_set_key_error)

lemmas loop_eval =
  call_openrouter_def case_prod_beta fst_select_key_candidates snd_select_key_candidates
  decrypt_api_key_def get_secret_key_def derive_key_def
  sample_b64decode_def sample_secretbox_decrypt_def sample_int_float_def
  rate_limit_cooldown_def response_error_message_def completion_content_def
  log_key_disabled_def MAX_KEY_ATTEMPTS_def
  DEFAULT_RATE_LIMIT_COOLDOWN_SECONDS_def DEFAULT_SERVER_ERROR_COOLDOWN_SECONDS_def

text \<open>
  C10, as the code has it. An error recorded with no cooldown duration, or with a
  duration of zero, writes the error fields and leaves \<open>cooldown_until\<close> as it was; a 429
  whose \<open>Retry-After\<close> parses to 0 is recorded with duration zero, so it records no
  cooldown. Any other duration, positive or negative, that \<open>datetime\<close> arithmetic can
  add sets \<open>cooldown_until\<close> to the time of recording plus the duration. An error is
  recorded when its message can be sliced, as every string can; the recorded message is
  its first \<open>MAX_STATUS_TEXT\<close> characters.
\<close>

theorem set_key_error_cooldown:
  fixes e :: env and doc d :: key_doc and w :: world
    and code :: int and message sliced :: json and cooldown_seconds :: "int option"
    and disable :: bool
  assumes "get_ai_api_key (guild_id doc) (name doc) (db_keys w) = Some d"
    and "slice_message message = Inr sliced"
  defines "w' \<equiv> snd (set_key_error e doc code message cooldown_seconds disable w)"
  defines "now \<equiv> wall_clock e (clock_reads w)"
  shows "(fst (set_key_error e doc code message cooldown_seconds disable w) = None
          \<and> (\<forall>s. message = JStr s \<longrightarrow> sliced = JStr (take MAX_STATUS_TEXT s))
          \<and> (\<exists>d'. get_ai_api_key (guild_id doc) (name doc) (db_keys w') = Some d'
               \<and> last_error_code d' = Some code
               \<and> last_error d' = Some sliced
               \<and> last_error_at d' = Some now
               \<and> updated_at d' = Some now
               \<and> (cooldown_seconds = None \<or> cooldown_seconds = Some 0 \<longrightarrow>
                     cooldown_until d' = cooldown_until d)
               \<and> (\<forall>n. cooldown_seconds = Some n \<and> n \<noteq> 0 \<and> in_datetime_range now n \<longrightarrow>
                     cooldown_until d' = Some (now + timedelta_seconds n))))
     \<and> (\<forall>c api_key i resp s gid last_err rest w0 recorded.
           decrypt_api_key e (encrypted_api_key (cand_doc c)) = Inr api_key
           \<and> request_json e i api_key = Inr resp
           \<and> resp_status resp = 429
           \<and> resp_retry_after resp = Some s \<and> s \<noteq> [] \<and> int_float e s = Inr 0
           \<and> slice_message (response_error_message resp) = Inr recorded \<longrightarrow>
           attempt_candidates e gid i last_err (c # rest) w0 =
             attempt_candidates e gid (Suc i)
               (JStr ''AI rate limit reached. Retrying with another key.'') rest
               (snd (set_key_error e (cand_doc c) 429 (response_error_message resp) (Some 0)
                       False (update_key_usage e (cand_doc c) c w0))))"
proof (rule conjI)
  have none: "fst (set_key_error e doc code message cooldown_seconds disable w) = None"
    by (simp add: fst_set_key_error assms(2))
  have str: "\<forall>s. message = JStr s \<longrightarrow> sliced = JStr (take MAX_STATUS_TEXT s)"
    using assms(2) by auto
  have rec: "\<exists>d'. get_ai_api_key (guild_id doc) (name doc) (db_keys w') = Some d'
          \<and> last_error_code d' = Some code
          \<and> last_error d' = Some sliced
          \<and> last_error_at d' = Some now
          \<and> updated_at d' = Some now
          \<and> (cooldown_seconds = None \<or> cooldown_seconds = Some 0 \<longrightarrow>
                cooldown_until d' = cooldown_until d)
          \<and> (\<forall>n. cooldown_seconds = Some n \<and> n \<noteq> 0 \<and> in_datetime_range now n \<longrightarrow>
                cooldown_until d' = Some (now + timedelta_seconds n))"
    unfolding w'_def now_def
    by (auto simp: set_key_error_record [OF assms(1,2)] Let_def split: option.splits)
  from none str rec
  show "fst (set_key_error e doc code message cooldown_seconds disable w) = None
          \<and> (\<forall>s. message = JStr s \<longrightarrow> sliced = JStr (take MAX_STATUS_TEXT s))
          \<and> (\<exists>d'. get_ai_api_key (guild_id doc) (name doc) (db_keys w') = Some d'
               \<and> last_error_code d' = Some code
               \<and> last_error d' = Some sliced
               \<and> last_error_at d' = Some now
               \<and> updated_at d' = Some now
               \<and> (cooldown_seconds = None \<or> cooldown_seconds = Some 0 \<longrightarrow>
                     cooldown_until d' = cooldown_until d)
               \<and> (\<forall>n. cooldown_seconds = Some n \<and> n \<noteq> 0 \<and> in_datetime_range now n \<longrightarrow>
                     cooldown_until d' = Some (now + timedelta_seconds n)))"
    by blast
next
  show "\<forall>c api_key i resp s gid last_err rest w0 recorded.
           decrypt_api_key e (encrypted_api_key (cand_doc c)) = Inr api_key
           \<and> request_json e i api_key = Inr resp
           \<and> resp_status resp = 429
           \<and> resp_retry_after resp = Some s \<and> s \<noteq> [] \<and> int_float e s = Inr 0
           \<and> slice_message (response_error_message resp) = Inr recorded \<longrightarrow>
           attempt_candidates e gid i last_err (c # rest) w0 =
             attempt_candidates e gid (Suc i)
               (JStr ''AI rate limit reached. Retrying with another key.'') rest
               (snd (set_key_error e (cand_doc c) 429 (response_error_message resp) (Some 0)
                       False (update_key_usage e (cand_doc c) c w0)))"
    by (intro allI impI attempt_rate_limited) (auto simp: rate_limit_cooldown_def)
qed

theorem set_key_error_cooldown_witness:
  "get_ai_api_key (guild_id cooled_doc) (name cooled_doc) (db_keys (sample_world [cooled_doc]))
     = Some cooled_doc
   \<and> slice_message (JStr ''slow down'') = Inr (JStr ''slow down'')
   \<and> map_option cooldown_until
        (get_ai_api_key 1 ''cooled''
           (db_keys (snd (set_key_error sample_env cooled_doc 429 (JStr ''slow down'') (Some 0)
                            False (sample_world [cooled_doc])))))
      = Some (Some 5)
   \<and> map_option cooldown_until
        (get_ai_api_key 1 ''cooled''
           (db_keys (snd (set_key_error sample_env cooled_doc 429 (JStr ''slow down'') (Some 7)
                            False (sample_world [cooled_doc])))))
      = Some (Some (sample_clock 0 + 7000000))
   \<and> map (\<lambda>d. (last_error_code d, last_error d, cooldown_until d))
        (db_keys (snd (call_openrouter
                         (sample_env\<lparr>request_json := (\<lambda>i api_key. Inr (rate_limited ''0''))\<rparr>) 1
                         (sample_world [cooled_doc]))))
      = [(Some 429, Some (JStr ''slow down''), Some 5)]"
proof -
  have g: "get_ai_api_key (guild_id cooled_doc) (name cooled_doc)
             (db_keys (sample_world [cooled_doc])) = Some cooled_doc"
    by (simp add: get_ai_api_key_def sample_world_def)
  have sl: "slice_message (JStr ''slow down'') = Inr (JStr ''slow down'')"
    by (simp add: MAX_STATUS_TEXT_def)
  have k: "guild_id cooled_doc = 1" "name cooled_doc = ''cooled''"
    "cooldown_until cooled_doc = Some 5"
    by (simp_all add: cooled_doc_def sample_doc_def)
  have clk: "wall_clock sample_env (clock_reads (sample_world [cooled_doc])) = sample_clock 0"
    by (simp add: sample_env_def sample_world_def)
  from set_key_error_cooldown
         [OF g sl, where e = sample_env and code = 429 and cooldown_seconds = "Some 0"
            and disable = False]
  have zero: "map_option cooldown_until
        (get_ai_api_key 1 ''cooled''
           (db_keys (snd (set_key_error sample_env cooled_doc 429 (JStr ''slow down'') (Some 0)
                            False (sample_world [cooled_doc])))))
      = Some (Some 5)"
    by (auto simp: k)
  from set_key_error_cooldown
         [OF g sl, where e = sample_env and code = 429 and cooldown_seconds = "Some 7"
            and disable = False]
  have seven: "map_option cooldown_until
        (get_ai_api_key 1 ''cooled''
           (db_keys (snd (set_key_error sample_env cooled_doc 429 (JStr ''slow down'') (Some 7)
                            False (sample_world [cooled_doc])))))
      = Some (Some (sample_clock 0 + 7000000))"
    by (auto simp: k clk timedelta_seconds_def in_datetime_range_def datetime_min_def
          datetime_max_def sample_clock_def)
  have run: "map (\<lambda>d. (last_error_code d, last_error d, cooldown_until d))
        (db_keys (snd (call_openrouter
                         (sample_env\<lparr>request_json := (\<lambda>i api_key. Inr (rate_limited ''0''))\<rparr>) 1
                         (sample_world [cooled_doc]))))
      = [(Some 429, Some (JStr ''slow down''), Some 5)]"
    by code_simp
  from g sl zero seven run show ?thesis by blast
qed

text \<open>
  C10 as stated fails for a negative duration: a 429 with \<open>Retry-After: -5\<close> records a
  new \<open>cooldown_until\<close>, five seconds before the time of recording, well inside the range
  of \<open>datetime\<close>.
\<close>

theorem negative_cooldown_counterexample:
  "call_openrouter (sample_env\<lparr>request_json := (\<lambda>i api_key. Inr (rate_limited ''-5''))\<rparr>) 1
     (sample_world [sample_doc ''k''])
   = (Inr (JNull, JStr ''AI rate limit reached. Retrying with another key.''),
      \<lparr> db_keys =
          [(sample_doc ''k'')
             \<lparr>minute_window_started_at := Some (sample_clock 0),
              minute_window_count := Some 1,
              day_started_at := Some (sample_clock 0),
              day_count := Some 1,
              last_used_at := Some (sample_clock 1),
              last_error := Some (JStr ''slow down''),
              last_error_code := Some 429,
              last_error_at := Some (sample_clock 2),
              updated_at := Some (sample_clock 2),
              cooldown_until := Some (sample_clock 2 - 5000000)\<rparr>],
        clock_reads = 3, notices = [] \<rparr>)
   \<and> in_datetime_range (sample_clock 2) (- 5)"
  by code_simp

section \<open>Properties of the failover loop\<close>

lemma attempt_unset_secret:
  assumes "getenv_enc_secret e = None \<or> getenv_enc_secret e = Some []"
  shows "attempt_candidates e gid i last_err (c # rest) w =
           (Inr (JNull, JStr (ENC_SECRET_ENV @ '' is not set'')), w)"
  using assms by (auto simp: decrypt_api_key_def get_secret_key_def Let_def)

lemma attempt_decrypt_failed:
  assumes "decrypt_api_key e (encrypted_api_key (cand_doc c)) = Inl (Exc cls msg)"
    and "\<not> isinstance_ValueError cls"
  shows "attempt_candidates e gid i last_err (c # rest) w =
           attempt_candidates e gid (Suc i) (JStr ''AI key decryption failed.'') rest
             (snd (set_key_error e (cand_doc c) 0 (JStr ''Key decryption failed'') None True w))"
  using assms by (simp add: Let_def set_key_error_outcome fst_set_key_error)

lemma attempt_decrypt_ValueError:
  assumes "decrypt_api_key e (encrypted_api_key (cand_doc c)) = Inl (Exc cls msg)"
    and "isinstance_ValueError cls"
  shows "attempt_candidates e gid i last_err (c # rest) w = (Inr (JNull, JStr msg), w)"
  using assms by (simp add: Let_def)

text \<open>
  A completion ends the loop with the reservation as the only change to the store; the
  content is returned as it is, a \<open>null\<close> content included.
\<close>

lemma attempt_completed:
  assumes "decrypt_api_key e (encrypted_api_key (cand_doc c)) = Inr api_key"
    and "request_json e i api_key = Inr resp"
    and "resp_status resp = 200"
    and "py_truthy (resp_data resp)"
    and "completion_content (resp_data resp) = Some answer"
  shows "attempt_candidates e gid i last_err (c # rest) w =
           (Inr (answer, JNull), update_key_usage e (cand_doc c) c w)"
  using assms by (simp add: Let_def)

lemma null_completion_returns:
  "call_openrouter (sample_env\<lparr>request_json := (\<lambda>i api_key. Inr null_completion)\<rparr>) 1
     (sample_world two_pool)
   = (Inr (JNull, JNull),
      \<lparr> db_keys =
          [(sample_doc ''first'')
             \<lparr>minute_window_started_at := Some (sample_clock 0),
              minute_window_count := Some 1,
              day_started_at := Some (sample_clock 0),
              day_count := Some 1,
              last_used_at := Some (sample_clock 1),
              updated_at := Some (sample_clock 1)\<rparr>,
           sample_doc ''second''],
        clock_reads = 2, notices = [] \<rparr>)"
  by code_simp

text \<open>
  The error message of a response: the \<open>"message"\<close> of an \<open>"error"\<close> object, or an \<open>"error"\<close>
  string, when truthy; otherwise the start of the raw text, or the fixed message. It is
  never falsy.
\<close>

lemma error_message_of_object:
  assumes "resp_data resp = JDict kvs"
    and "map_of kvs ''error'' = Some (JDict members)" and "members \<noteq> []"
    and "map_of members ''message'' = Some m" and "py_truthy m"
  shows "response_error_message resp = m"
  using assms by (simp add: response_error_message_def)

lemma error_message_of_string:
  assumes "resp_data resp = JDict kvs"
    and "map_of kvs ''error'' = Some (JStr s)" and "s \<noteq> []"
  shows "response_error_message resp = JStr s"
  using assms by (simp add: response_error_message_def)

lemma error_message_of_text:
  assumes "resp_data resp = JNull
           \<or> (\<exists>kvs. resp_data resp = JDict kvs \<and> map_of kvs ''error'' = None)"
  shows "response_error_message resp =
           (if resp_text resp \<noteq> [] then JStr (take MAX_STATUS_TEXT (resp_text resp))
            else JStr ''OpenRouter error'')"
  using assms by (auto simp: response_error_message_def)

lemma response_error_message_truthy: "py_truthy (response_error_message resp)"
  by (simp add: response_error_message_def Let_def MAX_STATUS_TEXT_def)

lemma completion_content_found:
  assumes "data = JDict kvs"
    and "map_of kvs ''choices'' = Some (JList (JDict choice # others))"
    and "map_of choice ''message'' = Some (JDict msg)"
  shows "completion_content data = map_of msg ''content''"
  using assms by (simp add: completion_content_def)

lemma completion_content_missing:
  assumes "data = JDict kvs" and "map_of kvs ''choices'' = None \<or> map_of kvs ''choices'' = Some (JList [])"
  shows "completion_content data = None"
  using assms by (auto simp: completion_content_def)

text \<open>The other branches of the loop: each records an error and goes on to the next candidate.\<close>

lemma attempt_request_failed:
  assumes "decrypt_api_key e (encrypted_api_key (cand_doc c)) = Inr api_key"
    and "request_json e i api_key = Inl exc"
  shows "attempt_candidates e gid i last_err (c # rest) w =
           attempt_candidates e gid (Suc i)
             (JStr ''OpenRouter request failed. Please try again.'') rest
             (snd (set_key_error e (cand_doc c) 0 (JStr ''OpenRouter request failed'') (Some 20)
                     False (update_key_usage e (cand_doc c) c w)))"
  using assms
  by (simp add: Let_def set_key_error_outcome fst_set_key_error
        DEFAULT_SERVER_ERROR_COOLDOWN_SECONDS_def)

lemma attempt_missing_content:
  assumes "decrypt_api_key e (encrypted_api_key (cand_doc c)) = Inr api_key"
    and "request_json e i api_key = Inr resp"
    and "resp_status resp = 200"
    and "py_truthy (resp_data resp)"
    and "completion_content (resp_data resp) = None"
  shows "attempt_candidates e gid i last_err (c # rest) w =
           attempt_candidates e gid (Suc i)
             (JStr ''OpenRouter response missing completion content.'') rest
             (snd (set_key_error e (cand_doc c) 200
                     (JStr ''OpenRouter response missing completion content.'') (Some 20)
                     False (update_key_usage e (cand_doc c) c w)))"
  using assms
  by (simp add: Let_def set_key_error_outcome fst_set_key_error
        DEFAULT_SERVER_ERROR_COOLDOWN_SECONDS_def)

lemma attempt_unauthorized:
  assumes "decrypt_api_key e (encrypted_api_key (cand_doc c)) = Inr api_key"
    and "request_json e i api_key = Inr resp"
    and "resp_status resp = 401 \<or> resp_status resp = 402"
    and "slice_message (response_error_message resp) = Inr sliced"
  shows "attempt_candidates e gid i last_err (c # rest) w =
           attempt_candidates e gid (Suc i)
             (JStr ''AI key disabled due to authorization or credit error.'') rest
             (log_key_disabled gid (cand_doc c) (resp_status resp)
                (snd (set_key_error e (cand_doc c) (resp_status resp)
                        (response_error_message resp) None True
                        (update_key_usage e (cand_doc c) c w))))"
  using assms by (auto simp: Let_def set_key_error_outcome fst_set_key_error)

lemma attempt_server_error:
  assumes "decrypt_api_key e (encrypted_api_key (cand_doc c)) = Inr api_key"
    and "request_json e i api_key = Inr resp"
    and "500 \<le> resp_status resp"
    and "slice_message (response_error_message resp) = Inr sliced"
  shows "attempt_candidates e gid i last_err (c # rest) w =
           attempt_candidates e gid (Suc i)
             (JStr ''OpenRouter server error. Retrying with another key.'') rest
             (snd (set_key_error e (cand_doc c) (resp_status resp)
                     (response_error_message resp) (Some 20) False
                     (update_key_usage e (cand_doc c) c w)))"
  using assms
  by (simp add: Let_def set_key_error_outcome fst_set_key_error
        DEFAULT_SERVER_ERROR_COOLDOWN_SECONDS_def)

lemma call_openrouter_no_keys:
  assumes "fst (select_key_candidates e gid w) = []"
  shows "call_openrouter e gid w =
           (Inr (JNull, JStr ''No available AI keys. Ask an admin to add or enable keys.''),
            snd (select_key_candidates e gid w))"
  using assms by (simp add: call_openrouter_def case_prod_beta)

text \<open>
  C5, where the code departs from it. An attempted candidate whose response has a status
  other than 200, 429, 401 and 402 and below 500 ends the loop, whatever candidates
  remain. When the response's error message can be sliced, as every string can, the
  result is no text and that message, and the credential's record gets the error and a
  cooldown of 30 seconds from the time of recording. When it cannot, the message being a
  number, a boolean or an object of the body, \<open>_set_key_error\<close> raises: the exception
  leaves the dispatcher, nothing is returned, and the record gets neither the error nor
  a cooldown, the reservation being the only change to the store.
\<close>

theorem unclassified_status_halts:
  fixes e :: env and c :: candidate and w :: world and gid :: int and i :: nat
    and last_err :: json and rest :: "candidate list"
  assumes "decrypt_api_key e (encrypted_api_key (cand_doc c)) = Inr api_key"
    and "request_json e i api_key = Inr resp"
    and "resp_status resp \<notin> {200, 429, 401, 402}"
    and "resp_status resp < 500"
  defines "doc \<equiv> cand_doc c"
  defines "out \<equiv> attempt_candidates e gid i last_err (c # rest) w"
  defines "message \<equiv> response_error_message resp"
  shows "(\<forall>exc. slice_message message = Inl exc \<longrightarrow>
            out = (Inl exc, (update_key_usage e doc c w)\<lparr>clock_reads := clock_reads w + 2\<rparr>))
     \<and> (\<forall>sliced. slice_message message = Inr sliced \<longrightarrow>
            fst out = Inr (JNull, message)
          \<and> snd out = snd (set_key_error e doc (resp_status resp) message (Some 30) False
                              (update_key_usage e doc c w))
          \<and> (\<forall>d. get_ai_api_key (guild_id doc) (name doc) (db_keys w) = Some d \<longrightarrow>
               (\<exists>d'. get_ai_api_key (guild_id doc) (name doc) (db_keys (snd out)) = Some d'
                  \<and> cooldown_until d' =
                      Some (wall_clock e (Suc (clock_reads w)) + timedelta_seconds 30)
                  \<and> last_error_code d' = Some (resp_status resp)
                  \<and> last_error d' = Some sliced
                  \<and> enabled d' = enabled d)))
     \<and> (\<forall>rest'. attempt_candidates e gid i last_err (c # rest') w = out)"
proof -
  let ?w1 = "update_key_usage e doc c w"
  let ?rec = "set_key_error e doc (resp_status resp) message (Some 30) False ?w1"
  have step: "attempt_candidates e gid i last_err (c # rest') w =
      (case fst ?rec of
         Some exc \<Rightarrow> (Inl exc, snd ?rec)
       | None \<Rightarrow> (Inr (JNull, message), snd ?rec))" for rest'
    unfolding doc_def message_def using assms(1-4)
    by (simp add: Let_def DEFAULT_RATE_LIMIT_COOLDOWN_SECONDS_def set_key_error_outcome)
  have out_eq: "out = (case fst ?rec of
         Some exc \<Rightarrow> (Inl exc, snd ?rec)
       | None \<Rightarrow> (Inr (JNull, message), snd ?rec))"
    unfolding out_def by (rule step)
  have raise: "out = (Inl exc, ?w1\<lparr>clock_reads := clock_reads w + 2\<rparr>)"
    if "slice_message message = Inl exc" for exc
    by (simp add: out_eq set_key_error_raises [OF that])
  have a: "fst out = Inr (JNull, message)" and b: "snd out = snd ?rec"
    if "slice_message message = Inr sliced" for sliced
    by (simp_all add: out_eq fst_set_key_error that)
  have store: "\<exists>d'. get_ai_api_key (guild_id doc) (name doc) (db_keys (snd out)) = Some d'
             \<and> cooldown_until d' =
                 Some (wall_clock e (Suc (clock_reads w)) + timedelta_seconds 30)
             \<and> last_error_code d' = Some (resp_status resp)
             \<and> last_error d' = Some sliced
             \<and> enabled d' = enabled d"
    if sl: "slice_message message = Inr sliced"
      and g: "get_ai_api_key (guild_id doc) (name doc) (db_keys w) = Some d" for sliced d
  proof -
    have g1: "get_ai_api_key (guild_id doc) (name doc) (db_keys ?w1) =
                Some (apply_update (key_usage_fields (wall_clock e (clock_reads w)) c) d)"
      by (simp add: db_keys_update_key_usage get_update_same g)
    show ?thesis
      by (simp add: b [OF sl] set_key_error_record [OF g1 sl] Let_def apply_key_usage_fields)
  qed
  have same: "\<forall>rest'. attempt_candidates e gid i last_err (c # rest') w = out"
    by (simp only: step out_eq) simp
  from raise a b store same show ?thesis by blast
qed

theorem unclassified_status_halts_witness:
  "\<exists>c rest. fst (select_key_candidates sample_env 1 (sample_world two_pool)) = c # rest
      \<and> rest \<noteq> []
      \<and> decrypt_api_key sample_env (encrypted_api_key (cand_doc c)) = Inr ''c2VhbGVk''
      \<and> resp_status (numeric_message 400) \<notin> {200, 429, 401, 402}
      \<and> resp_status (numeric_message 400) < 500
      \<and> response_error_message (numeric_message 400) = JNum 123
      \<and> slice_message (JNum 123) = Inl (Exc TypeError ''object is not subscriptable'')
      \<and> fst (attempt_candidates
                (sample_env\<lparr>request_json := (\<lambda>i api_key. Inr (numeric_message 400))\<rparr>) 1 0
                (JStr ''OpenRouter request failed.'') (c # rest)
                (snd (select_key_candidates sample_env 1 (sample_world two_pool))))
          = Inl (Exc TypeError ''object is not subscriptable'')
      \<and> call_openrouter
           (sample_env\<lparr>request_json := (\<lambda>i api_key. Inr (numeric_message 400))\<rparr>) 1
           (sample_world two_pool)
          = (Inl (Exc TypeError ''object is not subscriptable''),
             \<lparr> db_keys =
                 [(sample_doc ''first'')
                    \<lparr>minute_window_started_at := Some (sample_clock 0),
                     minute_window_count := Some 1,
                     day_started_at := Some (sample_clock 0),
                     day_count := Some 1,
                     last_used_at := Some (sample_clock 1),
                     updated_at := Some (sample_clock 1)\<rparr>,
                  sample_doc ''second''],
               clock_reads = 3, notices = [] \<rparr>)
      \<and> response_error_message (sample_response 400) = JStr ''upstream refused''
      \<and> fst (attempt_candidates sample_env 1 0 (JStr ''OpenRouter request failed.'') (c # rest)
                (snd (select_key_candidates sample_env 1 (sample_world two_pool))))
          = Inr (JNull, JStr ''upstream refused'')
      \<and> map (\<lambda>d. (name d, last_error_code d, cooldown_until d))
            (db_keys (snd (call_openrouter sample_env 1 (sample_world two_pool))))
          = [(''first'', Some 400, Some (sample_clock 2 + 30000000)), (''second'', None, None)]"
proof -
  let ?w1 = "snd (select_key_candidates sample_env 1 (sample_world two_pool))"
  let ?env = "sample_env\<lparr>request_json := (\<lambda>i api_key. Inr (numeric_message 400))\<rparr>"
  have "map cand_doc (fst (select_key_candidates sample_env 1 (sample_world two_pool)))
          = [sample_doc ''first'', sample_doc ''second'']"
    by (simp add: fst_select_key_candidates two_pool_def sample_eval)
  then obtain c rest where sel:
    "fst (select_key_candidates sample_env 1 (sample_world two_pool)) = c # rest"
    "rest \<noteq> []" "cand_doc c = sample_doc ''first''"
    by (auto simp: map_eq_Cons_conv)
  have dec: "decrypt_api_key sample_env (encrypted_api_key (cand_doc c)) = Inr ''c2VhbGVk''"
    by (simp add: sel(3) loop_eval sample_doc_def sample_env_def)
  have dec': "decrypt_api_key ?env (encrypted_api_key (cand_doc c)) = Inr ''c2VhbGVk''"
    by (simp add: sel(3) loop_eval sample_doc_def sample_env_def)
  have req: "request_json sample_env 0 ''c2VhbGVk'' = Inr (sample_response 400)"
    by (simp add: sample_env_def)
  have req': "request_json ?env 0 ''c2VhbGVk'' = Inr (numeric_message 400)"
    by simp
  have st: "resp_status (sample_response 400) \<notin> {200, 429, 401, 402}"
    "resp_status (sample_response 400) < 500"
    by (simp_all add: sample_response_def)
  have st': "resp_status (numeric_message 400) \<notin> {200, 429, 401, 402}"
    "resp_status (numeric_message 400) < 500"
    by (simp_all add: numeric_message_def)
  have msg: "response_error_message (sample_response 400) = JStr ''upstream refused''"
    by (simp add: response_error_message_def sample_response_def)
  have msg': "response_error_message (numeric_message 400) = JNum 123"
    by (simp add: response_error_message_def numeric_message_def)
  have sl: "slice_message (JStr ''upstream refused'') = Inr (JStr ''upstream refused'')"
    by (simp add: MAX_STATUS_TEXT_def)
  have sl': "slice_message (JNum 123) = Inl (Exc TypeError ''object is not subscriptable'')"
    by simp
  from unclassified_status_halts [OF dec' req' st', where gid = 1 and rest = rest and w = ?w1
         and last_err = "JStr ''OpenRouter request failed.''"]
  have raised: "fst (attempt_candidates ?env 1 0 (JStr ''OpenRouter request failed.'')
                       (c # rest) ?w1)
          = Inl (Exc TypeError ''object is not subscriptable'')"
    by (simp add: msg')
  from unclassified_status_halts [OF dec req st, where gid = 1 and rest = rest and w = ?w1
         and last_err = "JStr ''OpenRouter request failed.''"]
  have halt: "fst (attempt_candidates sample_env 1 0 (JStr ''OpenRouter request failed.'')
                     (c # rest) ?w1)
          = Inr (JNull, JStr ''upstream refused'')"
    by (simp add: msg sl)
  have run': "call_openrouter ?env 1 (sample_world two_pool)
          = (Inl (Exc TypeError ''object is not subscriptable''),
             \<lparr> db_keys =
                 [(sample_doc ''first'')
                    \<lparr>minute_window_started_at := Some (sample_clock 0),
                     minute_window_count := Some 1,
                     day_started_at := Some (sample_clock 0),
                     day_count := Some 1,
                     last_used_at := Some (sample_clock 1),
                     updated_at := Some (sample_clock 1)\<rparr>,
                  sample_doc ''second''],
               clock_reads = 3, notices = [] \<rparr>)"
    by code_simp
  have run: "map (\<lambda>d. (name d, last_error_code d, cooldown_until d))
            (db_keys (snd (call_openrouter sample_env 1 (sample_world two_pool))))
          = [(''first'', Some 400, Some (sample_clock 2 + 30000000)), (''second'', None, None)]"
    by code_simp
  show ?thesis
    by (rule exI[of _ c], rule exI[of _ rest], intro conjI)
       (rule sel(1) sel(2) dec st' msg' sl' raised run' msg halt run)+
qed

text \<open>
  C3, where the code departs from it. With the secret configured, a stored payload whose
  nonce is not valid base64 makes \<open>b64decode\<close> raise \<open>binascii.Error\<close>, a \<open>ValueError\<close>; the
  handler meant for the unset secret catches it: the dispatch returns that message at
  once, nothing is recorded on the credential, which stays enabled, and no further
  candidate is tried.
\<close>

theorem malformed_payload_aborts_dispatch:
  assumes "get_secret_key e = Inr box_key"
    and "map_of (encrypted_api_key (cand_doc c)) ''nonce'' = Some nonce64"
    and "b64decode e nonce64 = Inl (Exc BinasciiError msg)"
  shows "attempt_candidates e gid i last_err (c # rest) w = (Inr (JNull, JStr msg), w)"
proof -
  have "decrypt_api_key e (encrypted_api_key (cand_doc c)) = Inl (Exc BinasciiError msg)"
    using assms by (simp add: decrypt_api_key_def)
  then show ?thesis by (rule attempt_decrypt_ValueError) simp
qed

theorem malformed_payload_aborts_dispatch_witness:
  "get_secret_key answering_env = Inr ''secret''
   \<and> map_of (encrypted_api_key malformed_doc) ''nonce'' = Some ''a''
   \<and> b64decode answering_env ''a'' = Inl (Exc BinasciiError ''Invalid base64-encoded string'')
   \<and> call_openrouter answering_env 1 (sample_world [malformed_doc, sample_doc ''good''])
       = (Inr (JNull, JStr ''Invalid base64-encoded string''),
          \<lparr> db_keys = [malformed_doc, sample_doc ''good''], clock_reads = 1, notices = [] \<rparr>)"
proof -
  let ?w = "sample_world [malformed_doc, sample_doc ''good'']"
  let ?w1 = "snd (select_key_candidates answering_env 1 ?w)"
  have sec: "get_secret_key answering_env = Inr ''secret''"
    by (simp add: answering_env_def sample_env_def get_secret_key_def derive_key_def)
  have b64: "b64decode answering_env ''a'' = Inl (Exc BinasciiError ''Invalid base64-encoded string'')"
    by (simp add: answering_env_def sample_env_def sample_b64decode_def)
  have nonce: "map_of (encrypted_api_key malformed_doc) ''nonce'' = Some ''a''"
    by (simp add: malformed_doc_def)
  have "map cand_doc (fst (select_key_candidates answering_env 1 ?w))
          = [malformed_doc, sample_doc ''good'']"
    by (simp add: fst_select_key_candidates answering_env_def malformed_doc_def sample_eval)
  then obtain c rest where sel:
    "fst (select_key_candidates answering_env 1 ?w) = c # rest"
    "length rest = 1" "cand_doc c = malformed_doc"
    by (auto simp: map_eq_Cons_conv)
  have w1: "?w1 = \<lparr> db_keys = [malformed_doc, sample_doc ''good''], clock_reads = 1, notices = [] \<rparr>"
    by (simp add: snd_select_key_candidates sample_world_def)
  from malformed_payload_aborts_dispatch [OF sec, of c "''a''", OF _ b64]
  have "attempt_candidates answering_env 1 0 (JStr ''OpenRouter request failed.'') (c # rest) ?w1
          = (Inr (JNull, JStr ''Invalid base64-encoded string''), ?w1)"
    by (simp add: sel(3) nonce)
  then have "call_openrouter answering_env 1 ?w
       = (Inr (JNull, JStr ''Invalid base64-encoded string''), ?w1)"
    by (simp add: call_openrouter_def case_prod_beta sel MAX_KEY_ATTEMPTS_def)
  with sec nonce b64 w1 show ?thesis by simp
qed

text \<open>
  For contrast, the path the claim describes: a stored ciphertext that fails
  verification raises \<open>CryptoError\<close>; the credential is disabled with a recorded error and
  the next candidate answers.
\<close>

lemma tampered_payload_advances:
  "call_openrouter answering_env 1 (sample_world [tampered_doc, sample_doc ''good''])
     = (Inr (JStr ''hello'', JNull),
        \<lparr> db_keys =
            [tampered_doc\<lparr>last_error_code := Some 0,
                          last_error := Some (JStr ''Key decryption failed''),
                          last_error_at := Some (sample_clock 1),
                          updated_at := Some (sample_clock 1),
                          enabled := Some False\<rparr>,
             (sample_doc ''good'')
               \<lparr>minute_window_started_at := Some (sample_clock 0),
                minute_window_count := Some 1,
                day_started_at := Some (sample_clock 0),
                day_count := Some 1,
                last_used_at := Some (sample_clock 2),
                updated_at := Some (sample_clock 2)\<rparr>],
          clock_reads = 3, notices = [] \<rparr>)"
  by code_simp

section \<open>Properties of session trimming\<close>

lemma user_turns_of_simps [simp]:
  "user_turns_of [] = 0"
  "user_turns_of (m # ms) = (if role m = Some ''user'' then Suc (user_turns_of ms) else user_turns_of ms)"
  "user_turns_of (xs @ ys) = user_turns_of xs + user_turns_of ys"
  "user_turns_of (rev xs) = user_turns_of xs"
  by (simp_all add: user_turns_of_def flip: rev_filter)

lemma trim_loop_take:
  assumes "u < m"
  shows "\<exists>k \<le> length msgs.
           trim_loop msgs m u acc = acc @ take k msgs
         \<and> u + int (user_turns_of (take k msgs)) = min m (u + int (user_turns_of msgs))
         \<and> (m \<le> u + int (user_turns_of msgs) \<longrightarrow> 0 < k \<and> role (msgs ! (k - 1)) = Some ''user'')
         \<and> (u + int (user_turns_of msgs) < m \<longrightarrow> k = length msgs)"
  using assms
proof (induction msgs arbitrary: u acc)
  case Nil
  then show ?case by simp
next
  case (Cons msg msgs)
  let ?u = "if role msg = Some ''user'' then u + 1 else u"
  show ?case
  proof (cases "m \<le> ?u")
    case True
    then have "trim_loop (msg # msgs) m u acc = acc @ take 1 (msg # msgs)"
      by (simp add: Let_def)
    moreover from True Cons.prems have "role msg = Some ''user''" "m = u + 1"
      by (auto split: if_splits)
    ultimately show ?thesis
      by (intro exI[of _ 1]) auto
  next
    case False
    then have lt: "?u < m" by simp
    from Cons.IH [OF lt, of "acc @ [msg]"] obtain k where k: "k \<le> length msgs"
      "trim_loop msgs m ?u (acc @ [msg]) = (acc @ [msg]) @ take k msgs"
      "?u + int (user_turns_of (take k msgs)) = min m (?u + int (user_turns_of msgs))"
      "m \<le> ?u + int (user_turns_of msgs) \<longrightarrow> 0 < k \<and> role (msgs ! (k - 1)) = Some ''user''"
      "?u + int (user_turns_of msgs) < m \<longrightarrow> k = length msgs"
      by blast
    from False have "trim_loop (msg # msgs) m u acc = trim_loop msgs m ?u (acc @ [msg])"
      by (simp add: Let_def)
    with k(2) have eq: "trim_loop (msg # msgs) m u acc = acc @ take (Suc k) (msg # msgs)"
      by simp
    show ?thesis
      using k(1,3,4,5) eq
      by (intro exI[of _ "Suc k"]) (auto split: if_splits)
  qed
qed

lemma trim_messages_drop:
  assumes "0 < max_turns"
  shows "\<exists>k \<le> length messages.
           trim_messages messages max_turns = drop (length messages - k) messages
         \<and> int (user_turns_of (drop (length messages - k) messages))
             = min max_turns (int (user_turns_of messages))
         \<and> (max_turns \<le> int (user_turns_of messages) \<longrightarrow>
               0 < k \<and> role (messages ! (length messages - k)) = Some ''user'')
         \<and> (int (user_turns_of messages) < max_turns \<longrightarrow> k = length messages)"
proof -
  from trim_loop_take [OF assms, of "rev messages" "[]"] obtain k where k:
    "k \<le> length messages"
    "trim_loop (rev messages) max_turns 0 [] = take k (rev messages)"
    "int (user_turns_of (take k (rev messages))) = min max_turns (int (user_turns_of messages))"
    "max_turns \<le> int (user_turns_of messages) \<longrightarrow>
       0 < k \<and> role (rev messages ! (k - 1)) = Some ''user''"
    "int (user_turns_of messages) < max_turns \<longrightarrow> k = length messages"
    by auto
  have tk: "take k (rev messages) = rev (drop (length messages - k) messages)"
    by (simp add: take_rev)
  have "trim_messages messages max_turns = drop (length messages - k) messages"
    using assms by (simp add: trim_messages_def k(2) tk)
  moreover have "int (user_turns_of (drop (length messages - k) messages))
             = min max_turns (int (user_turns_of messages))"
    using k(3) unfolding tk by simp
  moreover have "role (messages ! (length messages - k)) = Some ''user''"
    if "max_turns \<le> int (user_turns_of messages)"
  proof -
    from that k(4) have "0 < k" "role (rev messages ! (k - 1)) = Some ''user''" by auto
    moreover have "rev messages ! (k - 1) = messages ! (length messages - Suc (k - 1))"
      using k(1) \<open>0 < k\<close> by (intro rev_nth) simp
    ultimately show ?thesis using \<open>0 < k\<close> by simp
  qed
  ultimately show ?thesis using k(1,4,5) by (intro exI[of _ k]) auto
qed

text \<open>
  C9. With a cap that is not positive the trim returns the empty list. With a positive
  cap it returns a suffix of the history, in the original order: the whole history when
  it has fewer user turns than the cap, and otherwise the part that starts at a user turn
  and holds exactly \<open>max_turns\<close> user turns, which is where the walk from the most recent
  turn stops.
\<close>

theorem trim_messages_keeps_last_turns:
  "(max_turns \<le> 0 \<longrightarrow> trim_messages messages max_turns = [])
   \<and> (0 < max_turns \<longrightarrow>
        (\<exists>older. messages = older @ trim_messages messages max_turns)
      \<and> int (user_turns_of (trim_messages messages max_turns))
          = min max_turns (int (user_turns_of messages))
      \<and> (max_turns \<le> int (user_turns_of messages) \<longrightarrow>
            trim_messages messages max_turns \<noteq> []
          \<and> role (hd (trim_messages messages max_turns)) = Some ''user'')
      \<and> (int (user_turns_of messages) < max_turns \<longrightarrow>
            trim_messages messages max_turns = messages))"
proof (intro conjI impI)
  assume "max_turns \<le> 0"
  then show "trim_messages messages max_turns = []" by (simp add: trim_messages_def)
next
  assume pos: "0 < max_turns"
  from trim_messages_drop [OF pos, of messages] obtain k where k:
    "k \<le> length messages"
    "trim_messages messages max_turns = drop (length messages - k) messages"
    "int (user_turns_of (drop (length messages - k) messages))
       = min max_turns (int (user_turns_of messages))"
    "max_turns \<le> int (user_turns_of messages) \<longrightarrow>
       0 < k \<and> role (messages ! (length messages - k)) = Some ''user''"
    "int (user_turns_of messages) < max_turns \<longrightarrow> k = length messages"
    by blast
  have "messages = take (length messages - k) messages @ trim_messages messages max_turns"
    by (simp add: k(2))
  then show "\<exists>older. messages = older @ trim_messages messages max_turns" ..
  show "int (user_turns_of (trim_messages messages max_turns))
          = min max_turns (int (user_turns_of messages))"
    by (simp add: k(2,3))
  {
    assume full: "max_turns \<le> int (user_turns_of messages)"
    with k(4) have kp: "0 < k" "role (messages ! (length messages - k)) = Some ''user''"
      by auto
    with k(1) have lt: "length messages - k < length messages" by simp
    then show "trim_messages messages max_turns \<noteq> []" by (simp add: k(2))
    from lt kp(2) show "role (hd (trim_messages messages max_turns)) = Some ''user''"
      by (simp add: k(2) hd_drop_conv_nth)
  }
  {
    assume "int (user_turns_of messages) < max_turns"
    with k(5) show "trim_messages messages max_turns = messages" by (simp add: k(2))
  }
qed

theorem trim_messages_keeps_last_turns_witness:
  "(0::int) < 2
   \<and> 2 \<le> int (user_turns_of five_exchanges)
   \<and> trim_messages five_exchanges 2
       = [user_msg ''q4'', assistant_msg ''a4'', user_msg ''q5'', assistant_msg ''a5'']
   \<and> trim_messages five_exchanges 0 = []
   \<and> trim_messages five_exchanges 6 = five_exchanges"
proof -
  have n: "int (user_turns_of five_exchanges) = 5"
    by (simp add: five_exchanges_def user_msg_def assistant_msg_def)
  have two: "trim_messages five_exchanges 2
       = [user_msg ''q4'', assistant_msg ''a4'', user_msg ''q5'', assistant_msg ''a5'']"
    by (simp add: trim_messages_def five_exchanges_def user_msg_def assistant_msg_def)
  from trim_messages_keeps_last_turns [of 0 five_exchanges]
  have zero: "trim_messages five_exchanges 0 = []" by simp
  from trim_messages_keeps_last_turns [of 6 five_exchanges]
  have six: "trim_messages five_exchanges 6 = five_exchanges" by (simp add: n)
  from n two zero six show ?thesis by simp
qed

section \<open>Properties of the concurrency gate\<close>

lemma inflight_of_get_lock [simp]: "inflight_of (get_lock g self) gid = inflight_of self gid"
  by (simp add: inflight_of_def get_lock_def)

lemma guild_inflight_get_lock [simp]: "guild_inflight (get_lock g self) = guild_inflight self"
  by (simp add: get_lock_def)

lemma acquire_refused:
  assumes "max_concurrent \<le> inflight_of self gid"
  shows "fst (acquire_guild_slot gid max_concurrent self) = False"
    and "guild_inflight (snd (acquire_guild_slot gid max_concurrent self)) = guild_inflight self"
  using assms by (simp_all add: acquire_guild_slot_def Let_def)

lemma acquire_admitted:
  assumes "inflight_of self gid < max_concurrent"
  shows "fst (acquire_guild_slot gid max_concurrent self) = True"
    and "guild_inflight (snd (acquire_guild_slot gid max_concurrent self)) =
           (guild_inflight self)(gid \<mapsto> inflight_of self gid + 1)"
  using assms by (simp_all add: acquire_guild_slot_def Let_def)

lemma inflight_of_acquire:
  "inflight_of (snd (acquire_guild_slot g m self)) gid =
     (if g = gid \<and> inflight_of self gid < m then inflight_of self gid + 1
      else inflight_of self gid)"
  by (auto simp: acquire_guild_slot_def Let_def inflight_of_def)

lemma guild_inflight_release:
  "guild_inflight (release_guild_slot gid self) =
     (if inflight_of self gid \<le> 1 then (guild_inflight self)(gid := None)
      else (guild_inflight self)(gid \<mapsto> inflight_of self gid - 1))"
  by (auto simp: release_guild_slot_def Let_def max_def)

lemma inflight_of_release:
  "inflight_of (release_guild_slot g self) gid =
     (if g = gid then max 0 (inflight_of self gid - 1) else inflight_of self gid)"
  by (auto simp: guild_inflight_release inflight_of_def max_def)

lemma gate_step_bounds:
  assumes "ceiling_is gid c op"
    and "0 \<le> inflight_of self gid" "inflight_of self gid \<le> max 0 c"
  shows "0 \<le> inflight_of (gate_step op self) gid
       \<and> inflight_of (gate_step op self) gid \<le> max 0 c"
  using assms by (cases op) (auto simp: inflight_of_acquire inflight_of_release)

lemma run_gate_bounds:
  assumes "list_all (ceiling_is gid c) ops"
    and "0 \<le> inflight_of self gid" "inflight_of self gid \<le> max 0 c"
  shows "0 \<le> inflight_of (run_gate ops self) gid
       \<and> inflight_of (run_gate ops self) gid \<le> max 0 c"
  using assms
proof (induction ops arbitrary: self)
  case Nil
  then show ?case by (simp add: run_gate_def)
next
  case (Cons op ops)
  from Cons.prems have "ceiling_is gid c op" "list_all (ceiling_is gid c) ops" by simp_all
  with gate_step_bounds [of gid c op self] Cons.prems
  have "0 \<le> inflight_of (gate_step op self) gid
      \<and> inflight_of (gate_step op self) gid \<le> max 0 c"
    by simp
  with Cons.IH [of "gate_step op self"] \<open>list_all (ceiling_is gid c) ops\<close>
  show ?case by (simp add: run_gate_def)
qed

lemma inflight_of_idle [simp]: "inflight_of idle_cog gid = 0"
  by (simp add: inflight_of_def idle_cog_def)

text \<open>
  C7. Acquire refuses and leaves the in-flight counts alone when the tenant's count has
  reached the ceiling, and otherwise adds one to it and admits. Release takes one off,
  not going below zero, and removes the tenant's entry when the count reaches zero.
  Hence under any serialized schedule that starts with nothing in flight and in which
  the tenant's acquires ask for one ceiling, the tenant's count is at every point at
  least zero and at most the ceiling. The ceiling the request handler passes is the
  tenant's \<open>max_concurrent\<close> setting, which is at least 1; the bound is stated for every
  ceiling that is not negative, and as \<open>max 0 ceiling\<close> for every ceiling.
\<close>

theorem guild_slot_gate:
  "(max_concurrent \<le> inflight_of self gid \<longrightarrow>
       fst (acquire_guild_slot gid max_concurrent self) = False
     \<and> guild_inflight (snd (acquire_guild_slot gid max_concurrent self)) = guild_inflight self)
   \<and> (inflight_of self gid < max_concurrent \<longrightarrow>
       fst (acquire_guild_slot gid max_concurrent self) = True
     \<and> guild_inflight (snd (acquire_guild_slot gid max_concurrent self)) =
         (guild_inflight self)(gid \<mapsto> inflight_of self gid + 1))
   \<and> inflight_of (release_guild_slot gid self) gid = max 0 (inflight_of self gid - 1)
   \<and> (0 < inflight_of self gid \<longrightarrow>
         inflight_of (release_guild_slot gid self) gid = inflight_of self gid - 1)
   \<and> (guild_inflight (release_guild_slot gid self) gid = None
        \<longleftrightarrow> inflight_of (release_guild_slot gid self) gid = 0)
   \<and> (\<forall>g. g \<noteq> gid \<longrightarrow>
         guild_inflight (release_guild_slot gid self) g = guild_inflight self g)
   \<and> (\<forall>ops n. list_all (ceiling_is gid max_concurrent) ops \<longrightarrow>
         0 \<le> inflight_of (run_gate (take n ops) idle_cog) gid
       \<and> inflight_of (run_gate (take n ops) idle_cog) gid \<le> max 0 max_concurrent
       \<and> (0 \<le> max_concurrent \<longrightarrow>
             inflight_of (run_gate (take n ops) idle_cog) gid \<le> max_concurrent))"
proof (intro conjI allI impI)
  fix ops n
  assume a: "list_all (ceiling_is gid max_concurrent) ops"
  then have "list_all (ceiling_is gid max_concurrent) (take n ops)"
    by (auto simp: list_all_iff dest: in_set_takeD)
  with run_gate_bounds [of gid max_concurrent "take n ops" idle_cog]
  have b: "0 \<le> inflight_of (run_gate (take n ops) idle_cog) gid
         \<and> inflight_of (run_gate (take n ops) idle_cog) gid \<le> max 0 max_concurrent"
    by simp
  from b show "0 \<le> inflight_of (run_gate (take n ops) idle_cog) gid"
    and "inflight_of (run_gate (take n ops) idle_cog) gid \<le> max 0 max_concurrent"
    by simp_all
  assume "0 \<le> max_concurrent"
  with b show "inflight_of (run_gate (take n ops) idle_cog) gid \<le> max_concurrent"
    by simp
qed (auto simp: acquire_refused acquire_admitted inflight_of_release guild_inflight_release
       inflight_of_def max_def split: option.splits)

lemmas gate_eval =
  run_gate_def acquire_guild_slot_def release_guild_slot_def get_lock_def inflight_of_def
  idle_cog_def Let_def

theorem guild_slot_gate_witness:
  "inflight_of idle_cog 1 < 2
   \<and> fst (acquire_guild_slot 1 2 idle_cog) = True
   \<and> 2 \<le> inflight_of two_in_flight 1
   \<and> fst (acquire_guild_slot 1 2 two_in_flight) = False
   \<and> inflight_of (snd (acquire_guild_slot 1 2 two_in_flight)) 1 = 2
   \<and> 0 < inflight_of two_in_flight 1
   \<and> inflight_of (release_guild_slot 1 two_in_flight) 1 = 1
   \<and> guild_inflight (release_guild_slot 1 (release_guild_slot 1 two_in_flight)) 1 = None
   \<and> list_all (ceiling_is 1 2) three_acquires
   \<and> inflight_of (run_gate (take 3 three_acquires) idle_cog) 1 = 2
   \<and> inflight_of (run_gate three_acquires idle_cog) 1 = 1"
proof -
  have idle: "inflight_of idle_cog 1 < 2" by simp
  have two: "inflight_of two_in_flight 1 = 2"
    by (simp add: two_in_flight_def gate_eval)
  have sched: "list_all (ceiling_is 1 2) three_acquires"
    by (simp add: three_acquires_def)
  have run3: "inflight_of (run_gate (take 3 three_acquires) idle_cog) 1 = 2"
    and run4: "inflight_of (run_gate three_acquires idle_cog) 1 = 1"
    by (simp_all add: three_acquires_def gate_eval)
  have rel2: "guild_inflight (release_guild_slot 1 (release_guild_slot 1 two_in_flight)) 1 = None"
    by (simp add: two_in_flight_def gate_eval)
  from guild_slot_gate [of 2 idle_cog 1] idle
  have first: "fst (acquire_guild_slot 1 2 idle_cog) = True" by blast
  from guild_slot_gate [of 2 two_in_flight 1] two
  have third: "fst (acquire_guild_slot 1 2 two_in_flight) = False"
    and kept: "guild_inflight (snd (acquire_guild_slot 1 2 two_in_flight)) = guild_inflight two_in_flight"
    and rel: "inflight_of (release_guild_slot 1 two_in_flight) 1 = 1"
    by simp_all
  from kept two have same: "inflight_of (snd (acquire_guild_slot 1 2 two_in_flight)) 1 = 2"
    by (simp add: inflight_of_def)
  from idle first two third same rel rel2 sched run3 run4 show ?thesis by simp
qed

section \<open>Properties of the cooldown tracker\<close>

lemma cooldown_remaining_nonneg: "0 \<le> cooldown_remaining monotonic last_ts cooldown_seconds"
  by (simp add: cooldown_remaining_def split: option.splits)

lemma py_int_nonneg: "0 \<le> x \<Longrightarrow> 0 \<le> py_int x"
  by (simp add: py_int_def)

text \<open>
  Once the cooldown's seconds have passed between the stamp and the reading, nothing
  remains: rounding cannot turn an elapsed cooldown into an active one.
\<close>

lemma cooldown_remaining_elapsed:
  assumes "elapsed monotonic last_ts cooldown_seconds"
  shows "cooldown_remaining monotonic last_ts cooldown_seconds = 0"
proof (cases last_ts)
  case None
  then show ?thesis by (simp add: cooldown_remaining_def)
next
  case (Some t)
  with assms have "of_int cooldown_seconds \<le> monotonic - t" by (simp add: elapsed_def)
  then have "round_double (of_int cooldown_seconds) \<le> round_double (monotonic - t)"
    by (rule round_double_mono)
  then have "float_of_int cooldown_seconds - float_sub monotonic t \<le> 0"
    by (simp add: float_of_int_def float_sub_def)
  then have "float_sub (float_of_int cooldown_seconds) (float_sub monotonic t) \<le> 0"
    unfolding float_sub_def [of "float_of_int cooldown_seconds"] by (rule round_double_nonpos)
  then show ?thesis by (simp add: cooldown_remaining_def Some max_def)
qed

text \<open>
  C8, as the code has it. The remaining time of a cooldown is
  \<open>cooldown_seconds - (monotonic - last_ts)\<close> computed in floats, or zero if that is
  negative or there is no stamp. The check returns the remaining time of the first
  cooldown, in the order actor then channel, for which it is positive, as whole seconds
  rounded down: the actor's when it is positive, whatever the channel's is, and
  otherwise the channel's. It returns nothing exactly when both are zero, as they are
  when both cooldowns have elapsed; what it returns is never negative.
\<close>

theorem check_cooldowns_first_active:
  fixes self :: cog and m1 m2 :: rat and gid user_id channel_id user_cooldown channel_cooldown :: int
  defines "actor \<equiv> actor_remaining self m1 gid user_id user_cooldown"
  defines "chan \<equiv> channel_remaining self m2 gid channel_id channel_cooldown"
  defines "check \<equiv>
    check_cooldowns self m1 m2 gid user_id channel_id user_cooldown channel_cooldown"
  shows "(0 < actor \<longrightarrow> check = Some (Cooldown_active (py_int actor)))
   \<and> (actor = 0 \<and> 0 < chan \<longrightarrow> check = Some (Channel_cooldown_active (py_int chan)))
   \<and> (check = None \<longleftrightarrow> actor = 0 \<and> chan = 0)
   \<and> 0 \<le> actor \<and> 0 \<le> chan
   \<and> (\<forall>msg. check = Some msg \<longrightarrow> 0 \<le> message_seconds msg)
   \<and> (elapsed m1 (user_cooldowns self (gid, user_id)) user_cooldown \<longrightarrow> actor = 0)
   \<and> (elapsed m2 (channel_cooldowns self (gid, channel_id)) channel_cooldown \<longrightarrow> chan = 0)
   \<and> (\<forall>t. user_cooldowns self (gid, user_id) = Some t \<longrightarrow>
         actor = max 0 (float_sub (float_of_int user_cooldown) (float_sub m1 t)))
   \<and> (\<forall>t. channel_cooldowns self (gid, channel_id) = Some t \<longrightarrow>
         chan = max 0 (float_sub (float_of_int channel_cooldown) (float_sub m2 t)))"
proof -
  have nn: "0 \<le> actor" "0 \<le> chan"
    by (simp_all add: actor_def chan_def actor_remaining_def channel_remaining_def
          cooldown_remaining_nonneg)
  have pnn: "0 \<le> py_int actor" "0 \<le> py_int chan"
    using nn by (simp_all add: py_int_nonneg)
  have chk: "check = (if 0 < actor then Some (Cooldown_active (py_int actor))
                      else if 0 < chan then Some (Channel_cooldown_active (py_int chan))
                      else None)"
    by (simp add: check_def check_cooldowns_def Let_def actor_def chan_def
          actor_remaining_def channel_remaining_def)
  have el: "elapsed m1 (user_cooldowns self (gid, user_id)) user_cooldown \<longrightarrow> actor = 0"
    "elapsed m2 (channel_cooldowns self (gid, channel_id)) channel_cooldown \<longrightarrow> chan = 0"
    by (simp_all add: actor_def chan_def actor_remaining_def channel_remaining_def
          cooldown_remaining_elapsed)
  have val: "\<forall>t. user_cooldowns self (gid, user_id) = Some t \<longrightarrow>
         actor = max 0 (float_sub (float_of_int user_cooldown) (float_sub m1 t))"
    "\<forall>t. channel_cooldowns self (gid, channel_id) = Some t \<longrightarrow>
         chan = max 0 (float_sub (float_of_int channel_cooldown) (float_sub m2 t))"
    by (simp_all add: actor_def chan_def actor_remaining_def channel_remaining_def
          cooldown_remaining_def)
  have a: "0 < actor \<longrightarrow> check = Some (Cooldown_active (py_int actor))"
    by (simp add: chk)
  have b: "actor = 0 \<and> 0 < chan \<longrightarrow> check = Some (Channel_cooldown_active (py_int chan))"
    by (simp add: chk)
  have c: "check = None \<longleftrightarrow> actor = 0 \<and> chan = 0"
    using nn by (auto simp: chk)
  have d: "\<forall>msg. check = Some msg \<longrightarrow> 0 \<le> message_seconds msg"
    using pnn by (auto simp: chk split: if_splits)
  from a b c nn d el val show ?thesis by blast
qed

text \<open>
  The readings at which the float computation shows: an actor whose last request was 5
  seconds ago gets 5; from the stamp \<open>0.1\<close> to the reading \<open>10.1\<close> a little less than 10
  seconds pass between the two floats, and the computed remaining time is zero; from
  \<open>1.489399728\<close> to \<open>6.489399728\<close> a little more than 5 seconds pass, and the computed
  remaining time is 5.
\<close>

lemma remaining_five: "cooldown_remaining 100 (Some 95) 10 = 5"
  by code_simp

lemma remaining_fifty_five: "cooldown_remaining 100 (Some 95) 60 = 55"
  by code_simp

lemma remaining_tenth:
  "cooldown_remaining (float_literal (101 / 10)) (Some (float_literal (1 / 10))) 10 = 0"
  by code_simp

lemma not_elapsed_tenth:
  "\<not> elapsed (float_literal (101 / 10)) (Some (float_literal (1 / 10))) 10"
  by code_simp

lemma remaining_fraction:
  "cooldown_remaining (float_literal (6489399728 / 1000000000))
     (Some (float_literal (1489399728 / 1000000000))) 10 = 5"
  by code_simp

lemma exact_fraction:
  "10 - (float_literal (6489399728 / 1000000000) - float_literal (1489399728 / 1000000000))
     < (5 :: rat)"
  by code_simp

theorem check_cooldowns_first_active_witness:
  "actor_remaining five_seconds_ago_cog 100 1 7 10 = 5
   \<and> check_cooldowns five_seconds_ago_cog 100 100 1 7 9 10 1 = Some (Cooldown_active 5)
   \<and> elapsed 105 (user_cooldowns five_seconds_ago_cog (1, 7)) 10
   \<and> elapsed 105 (channel_cooldowns five_seconds_ago_cog (1, 9)) 1
   \<and> check_cooldowns five_seconds_ago_cog 105 105 1 7 9 10 1 = None
   \<and> actor_remaining five_seconds_ago_cog 100 1 8 10 = 0
   \<and> channel_remaining five_seconds_ago_cog 100 1 9 60 = 55
   \<and> check_cooldowns five_seconds_ago_cog 100 100 1 8 9 10 60 = Some (Channel_cooldown_active 55)
   \<and> \<not> elapsed (float_literal (101 / 10)) (user_cooldowns tenth_cog (1, 7)) 10
   \<and> actor_remaining tenth_cog (float_literal (101 / 10)) 1 7 10 = 0
   \<and> channel_remaining tenth_cog (float_literal (101 / 10)) 1 9 10 = 0
   \<and> check_cooldowns tenth_cog (float_literal (101 / 10)) (float_literal (101 / 10)) 1 7 9 10 10
       = None
   \<and> actor_remaining fraction_cog (float_literal (6489399728 / 1000000000)) 1 7 10 = 5
   \<and> check_cooldowns fraction_cog (float_literal (6489399728 / 1000000000))
        (float_literal (6489399728 / 1000000000)) 1 7 9 10 1
       = Some (Cooldown_active 5)"
proof -
  have u: "user_cooldowns five_seconds_ago_cog (1, 7) = Some 95"
    "user_cooldowns five_seconds_ago_cog (1, 8) = None"
    "channel_cooldowns five_seconds_ago_cog (1, 9) = Some 95"
    by (simp_all add: five_seconds_ago_cog_def set_cooldowns_def idle_cog_def)
  have ut: "user_cooldowns tenth_cog (1, 7) = Some (float_literal (1 / 10))"
    "channel_cooldowns tenth_cog (1, 9) = Some (float_literal (1 / 10))"
    by (simp_all add: tenth_cog_def set_cooldowns_def idle_cog_def)
  have uf: "user_cooldowns fraction_cog (1, 7) = Some (float_literal (1489399728 / 1000000000))"
    by (simp_all add: fraction_cog_def set_cooldowns_def idle_cog_def)
  have el: "elapsed 105 (Some 95) 10" "elapsed 105 (Some 95) 1"
    by (simp_all add: elapsed_def)
  have r: "actor_remaining five_seconds_ago_cog 100 1 7 10 = 5"
    "channel_remaining five_seconds_ago_cog 100 1 9 60 = 55"
    by (simp_all only: actor_remaining_def channel_remaining_def u remaining_five
          remaining_fifty_five)
  have r0: "actor_remaining five_seconds_ago_cog 100 1 8 10 = 0"
    by (simp add: actor_remaining_def u cooldown_remaining_def)
  have rt: "actor_remaining tenth_cog (float_literal (101 / 10)) 1 7 10 = 0"
    "channel_remaining tenth_cog (float_literal (101 / 10)) 1 9 10 = 0"
    by (simp_all only: actor_remaining_def channel_remaining_def ut remaining_tenth)
  have rf: "actor_remaining fraction_cog (float_literal (6489399728 / 1000000000)) 1 7 10 = 5"
    by (simp only: actor_remaining_def uf remaining_fraction)
  have p: "py_int 5 = 5" "py_int 55 = 55" by (simp_all add: py_int_def)
  from check_cooldowns_first_active
         [where self = five_seconds_ago_cog and ?m1.0 = 100 and ?m2.0 = 100 and gid = 1
            and user_id = 7 and channel_id = 9 and user_cooldown = 10 and channel_cooldown = 1]
  have a: "check_cooldowns five_seconds_ago_cog 100 100 1 7 9 10 1 = Some (Cooldown_active 5)"
    by (simp add: r p)
  from check_cooldowns_first_active
         [where self = five_seconds_ago_cog and ?m1.0 = 105 and ?m2.0 = 105 and gid = 1
            and user_id = 7 and channel_id = 9 and user_cooldown = 10 and channel_cooldown = 1]
  have b: "check_cooldowns five_seconds_ago_cog 105 105 1 7 9 10 1 = None"
    by (simp add: u el)
  from check_cooldowns_first_active
         [where self = five_seconds_ago_cog and ?m1.0 = 100 and ?m2.0 = 100 and gid = 1
            and user_id = 8 and channel_id = 9 and user_cooldown = 10 and channel_cooldown = 60]
  have c: "check_cooldowns five_seconds_ago_cog 100 100 1 8 9 10 60
             = Some (Channel_cooldown_active 55)"
    by (simp add: r r0 p)
  from check_cooldowns_first_active
         [where self = tenth_cog and ?m1.0 = "float_literal (101 / 10)"
            and ?m2.0 = "float_literal (101 / 10)" and gid = 1
            and user_id = 7 and channel_id = 9 and user_cooldown = 10 and channel_cooldown = 10]
  have d: "check_cooldowns tenth_cog (float_literal (101 / 10)) (float_literal (101 / 10))
             1 7 9 10 10 = None"
    by (simp only: rt)
  from check_cooldowns_first_active
         [where self = fraction_cog and ?m1.0 = "float_literal (6489399728 / 1000000000)"
            and ?m2.0 = "float_literal (6489399728 / 1000000000)" and gid = 1
            and user_id = 7 and channel_id = 9 and user_cooldown = 10 and channel_cooldown = 1]
  have f: "check_cooldowns fraction_cog (float_literal (6489399728 / 1000000000))
             (float_literal (6489399728 / 1000000000)) 1 7 9 10 1 = Some (Cooldown_active 5)"
    by (simp only: rf) (simp add: p)
  have ne: "\<not> elapsed (float_literal (101 / 10)) (user_cooldowns tenth_cog (1, 7)) 10"
    unfolding ut by (rule not_elapsed_tenth)
  from a b c d f r r0 rt rf ne show ?thesis by (simp add: u el)
qed

text \<open>
  C8 as stated fails when the actor has less time left than the channel: with 2 seconds
  left for the actor and 55 for the channel the check reports the actor's 2, not the
  greater of the two.
\<close>

theorem smaller_cooldown_reported_counterexample:
  "check_cooldowns recent_cog 100 100 1 7 9 10 60 = Some (Cooldown_active 2)
   \<and> actor_remaining recent_cog 100 1 7 10 = 2
   \<and> channel_remaining recent_cog 100 1 9 60 = 55"
  by code_simp

end
